theory Spec2Isabelle
  imports Complex_Main "HOL-Library.Product_Lexorder" "HOL-Library.Multiset"
begin

section \<open>Text primitives of the interpreter\<close>

text \<open>
  A Python \<open>str\<close> is a sequence of Unicode code points, so a string is a list of
  natural numbers here (not of 8-bit characters: the patterns of the source contain code
  points above 255). \<open>ustr\<close> turns an ASCII literal into such a string.
\<close>

type_synonym pystr = "nat list"

definition ustr :: "string \<Rightarrow> pystr" where
  "ustr s = map of_char s"

text \<open>
  \<open>str.isspace\<close>, the separator set of \<open>str.split()\<close> and \<open>str.strip()\<close>, and the
  regex class \<open>\s\<close> on a \<open>str\<close> pattern all use CPython's one whitespace table:
  U+0009..U+000D, U+001C..U+0020, U+0085, U+00A0, U+1680, U+2000..U+200A, U+2028, U+2029,
  U+202F, U+205F and U+3000.
\<close>

definition py_isspace :: "nat \<Rightarrow> bool" where
  "py_isspace c \<longleftrightarrow>
     (9 \<le> c \<and> c \<le> 13) \<or> (28 \<le> c \<and> c \<le> 32) \<or> c = 133 \<or> c = 160 \<or> c = 5760 \<or>
     (8192 \<le> c \<and> c \<le> 8202) \<or> c = 8232 \<or> c = 8233 \<or> c = 8239 \<or> c = 8287 \<or> c = 12288"

text \<open>The regex class \<open>[a-zA-Z]\<close>: the 52 ASCII letters only.\<close>

definition ascii_alpha :: "nat \<Rightarrow> bool" where
  "ascii_alpha c \<longleftrightarrow> (97 \<le> c \<and> c \<le> 122) \<or> (65 \<le> c \<and> c \<le> 90)"

text \<open>
  The regex class \<open>\d\<close> on a \<open>str\<close> pattern is the decimal-digit category of the
  interpreter's Unicode database, a table that is outside the repository and changes
  with the interpreter's version. The functions that use \<open>\d\<close> take it as the parameter
  \<open>nd\<close>. In every version it contains the ten ASCII digits (\<open>ascii_digit\<close>) and no
  whitespace character, no period and no closing parenthesis; under that, the greedy
  matches of the two patterns below never succeed after backtracking, and the scans
  written here are what the regex engine computes.
\<close>

definition ascii_digit :: "nat \<Rightarrow> bool" where
  "ascii_digit c \<longleftrightarrow> 48 \<le> c \<and> c \<le> 57"

definition strip :: "pystr \<Rightarrow> pystr" where
  "strip s = rev (dropWhile py_isspace (rev (dropWhile py_isspace s)))"

text \<open>\<open>s.split()\<close>: the maximal runs of non-whitespace, in order.\<close>

fun split_acc :: "pystr \<Rightarrow> pystr \<Rightarrow> pystr list" where
  "split_acc w [] = (if w = [] then [] else [w])"
| "split_acc w (c # cs) =
     (if py_isspace c then (if w = [] then split_acc [] cs else w # split_acc [] cs)
      else split_acc (w @ [c]) cs)"

definition split :: "pystr \<Rightarrow> pystr list" where
  "split s = split_acc [] s"

text \<open>\<open>sep.join(ws)\<close>.\<close>

fun join :: "pystr \<Rightarrow> pystr list \<Rightarrow> pystr" where
  "join sep [] = []"
| "join sep [w] = w"
| "join sep (w # v # ws) = w @ sep @ join sep (v # ws)"

text \<open>\<open>re.search('[a-zA-Z]', s)\<close> as a truth value.\<close>

definition has_alpha :: "pystr \<Rightarrow> bool" where
  "has_alpha s = list_ex ascii_alpha s"

text \<open>\<open>sub in s\<close>.\<close>

fun contains :: "pystr \<Rightarrow> pystr \<Rightarrow> bool" where
  "contains sub [] = (sub = [])"
| "contains sub (c # cs) = (take (length sub) (c # cs) = sub \<or> contains sub cs)"

text \<open>\<open>re.search(r'\.{4,}', s)\<close>: four consecutive periods somewhere in \<open>s\<close>.\<close>

fun dot_leader :: "pystr \<Rightarrow> bool" where
  "dot_leader (a # b # c # d # r) =
     ((a = 46 \<and> b = 46 \<and> c = 46 \<and> d = 46) \<or> dot_leader (b # c # d # r))"
| "dot_leader _ = False"

text \<open>\<open>s.endswith(('.', ',', ';', ':'))\<close>.\<close>

definition ends_sentence :: "pystr \<Rightarrow> bool" where
  "ends_sentence s \<longleftrightarrow> s \<noteq> [] \<and> last s \<in> {46, 44, 59, 58}"

text \<open>
  \<open>re.match(r'^\s*([...*-]|[a-zA-Z\d]+\))\s+', s)\<close> as a truth value. The bytes of the
  character class in the source file are C3 A2, E2 82 AC, C2 A2, 2A, 2D: read as UTF-8
  these are the five code points U+00E2, U+20AC, U+00A2, \<open>*\<close> and \<open>-\<close>. The bullet
  glyph U+2022 is not among them.
\<close>

definition bullet_class :: "nat \<Rightarrow> bool" where
  "bullet_class c \<longleftrightarrow> c = 226 \<or> c = 8364 \<or> c = 162 \<or> c = 42 \<or> c = 45"

definition alnum_class :: "(nat \<Rightarrow> bool) \<Rightarrow> nat \<Rightarrow> bool" where
  "alnum_class nd c \<longleftrightarrow> ascii_alpha c \<or> nd c"

definition starts_space :: "pystr \<Rightarrow> bool" where
  "starts_space s = (case s of [] \<Rightarrow> False | c # _ \<Rightarrow> py_isspace c)"

definition list_item_marker :: "(nat \<Rightarrow> bool) \<Rightarrow> pystr \<Rightarrow> bool" where
  "list_item_marker nd s =
     (let t = dropWhile py_isspace s in
      (case t of [] \<Rightarrow> False | c # r \<Rightarrow> bullet_class c \<and> starts_space r) \<or>
      (takeWhile (alnum_class nd) t \<noteq> [] \<and>
       (case dropWhile (alnum_class nd) t of
          [] \<Rightarrow> False
        | p # r \<Rightarrow> p = 41 \<and> starts_space r)))"

text \<open>
  \<open>list_item_pattern.match(s)\<close> for \<open>^\s*(\d+(\.\d+)*)\s+\<close>: \<open>None\<close> when there is no
  match, otherwise group 1. \<open>number_groups\<close> is the greedy loop \<open>(\.\d+)*\<close>; it returns
  what it has matched, appended to \<open>g\<close>, and the rest of the input.
\<close>

function number_groups :: "(nat \<Rightarrow> bool) \<Rightarrow> pystr \<Rightarrow> pystr \<Rightarrow> pystr \<times> pystr" where
  "number_groups nd g s =
     (case s of
        [] \<Rightarrow> (g, s)
      | c # r \<Rightarrow>
          if c = 46 \<and> takeWhile nd r \<noteq> []
          then number_groups nd (g @ c # takeWhile nd r) (dropWhile nd r)
          else (g, s))"
  by pat_completeness auto
termination
  by (relation "measure (\<lambda>(nd, g, s). length s)")
     (auto intro: le_imp_less_Suc length_dropWhile_le)

declare number_groups.simps [simp del]

definition list_item_pattern :: "(nat \<Rightarrow> bool) \<Rightarrow> pystr \<Rightarrow> pystr option" where
  "list_item_pattern nd s =
     (let t = dropWhile py_isspace s in
      if takeWhile nd t = [] then None
      else (case number_groups nd (takeWhile nd t) (dropWhile nd t) of
              (g, r) \<Rightarrow> if starts_space r then Some g else None))"

text \<open>\<open>s.count('.')\<close>.\<close>

definition count_dots :: "pystr \<Rightarrow> nat" where
  "count_dots s = length (filter (\<lambda>c. c = 46) s)"

section \<open>Dictionaries in insertion order\<close>

text \<open>
  \<open>d[k] += v\<close> on a \<open>defaultdict(int)\<close> or a \<open>Counter\<close>: a new key goes to the end, an old
  key keeps its place. \<open>max_key\<close> is \<open>max(d, key=d.get)\<close> and also the key of
  \<open>Counter.most_common(1)\<close>: the first key, in insertion order, whose value is maximal.
\<close>

fun dict_add :: "('k \<times> nat) list \<Rightarrow> 'k \<Rightarrow> nat \<Rightarrow> ('k \<times> nat) list" where
  "dict_add [] k v = [(k, v)]"
| "dict_add ((k', v') # d) k v =
     (if k' = k then (k', v' + v) # d else (k', v') # dict_add d k v)"

fun max_from :: "'k \<times> nat \<Rightarrow> ('k \<times> nat) list \<Rightarrow> 'k" where
  "max_from (k, v) [] = k"
| "max_from (k, v) ((k', v') # d) = (if v < v' then max_from (k', v') d else max_from (k, v) d)"

definition max_key :: "('k \<times> nat) list \<Rightarrow> 'k option" where
  "max_key d = (case d of [] \<Rightarrow> None | kv # r \<Rightarrow> Some (max_from kv r))"

definition counter :: "'k list \<Rightarrow> ('k \<times> nat) list" where
  "counter xs = foldl (\<lambda>d x. dict_add d x 1) [] xs"

text \<open>
  \<open>sorted(xs, key=f, reverse=True)\<close>: CPython reverses the list, sorts it stably and
  reverses the result, so that equal keys keep their input order.
\<close>

definition sorted_reverse :: "('a \<Rightarrow> 'k::linorder) \<Rightarrow> 'a list \<Rightarrow> 'a list" where
  "sorted_reverse f xs = rev (sort_key f (rev xs))"

section \<open>Data model\<close>

type_synonym style = "int \<times> bool"

type_synonym bbox = "real \<times> real \<times> real \<times> real"

text \<open>\<open>bbox[1]\<close> is the top of a box and \<open>bbox[3]\<close> its bottom.\<close>

definition bbox_1 :: "bbox \<Rightarrow> real" where
  "bbox_1 b = (case b of (x0, y0, x1, y1) \<Rightarrow> y0)"

definition bbox_3 :: "bbox \<Rightarrow> real" where
  "bbox_3 b = (case b of (x0, y0, x1, y1) \<Rightarrow> y1)"

text \<open>
  What the decoder delivers. A span carries its text, \<open>round(span['size'])\<close> and the
  result of \<open>_is_bold_by_name\<close> on its font name. A page carries its layout blocks, its
  height and \<open>page.get_text(clip=Rect(0, a, width, b))\<close> as a function of \<open>a\<close> and \<open>b\<close>.
  \<open>first_page_top\<close> is the answer to \<open>get_text("dict", clip=top_rect)\<close> on page 0: blocks
  as (type, lines), a line as its span texts with
  \<open>round(sum of the span sizes / number of spans)\<close>.
\<close>

record span =
  span_text :: pystr
  span_size :: int
  span_bold :: bool

record raw_block =
  block_type :: int
  block_lines :: "span list list"
  block_bbox :: bbox

record page =
  page_blocks :: "raw_block list"
  page_height :: real
  page_text :: "real \<Rightarrow> real \<Rightarrow> pystr"

record top_line =
  line_spans :: "pystr list"
  avg_size :: int

record pdf_doc =
  metadata_title :: "pystr option"
  toc :: "(int \<times> pystr \<times> int) list"
  pages :: "page list"
  first_page_top :: "(int \<times> top_line list) list"

record block =
  btext :: pystr
  style :: style
  bbox :: bbox
  page_num :: int
  num_lines :: nat
  num_words :: nat

text \<open>A level \<open>H n\<close> is the string \<open>f"H{n}"\<close>.\<close>

datatype level = H int

record heading =
  h_level :: level
  h_text :: pystr
  h_page_num :: int
  h_bbox :: "bbox option"

record outline_result =
  title :: pystr
  outline :: "heading list"

section \<open>Pass 1: text blocks\<close>

definition make_block :: "int \<Rightarrow> raw_block \<Rightarrow> block option" where
  "make_block pn rb =
     (if block_type rb \<noteq> 0 then None
      else
        let spans = concat (block_lines rb);
            block_text = concat (map (\<lambda>s. span_text s @ [32]) spans);
            span_styles = map (\<lambda>s. (span_size s, span_bold s)) spans
        in if strip block_text = [] \<or> \<not> has_alpha block_text then None
           else (case max_key (counter span_styles) of
                   None \<Rightarrow> None
                 | Some dominant_style \<Rightarrow>
                     Some \<lparr>btext = strip block_text, style = dominant_style,
                           bbox = block_bbox rb, page_num = pn,
                           num_lines = length (block_lines rb),
                           num_words = length (split block_text)\<rparr>))"

definition get_text_blocks :: "pdf_doc \<Rightarrow> block list" where
  "get_text_blocks doc =
     concat (map (\<lambda>(i, p). List.map_filter (make_block (int i + 1)) (page_blocks p))
                 (enumerate 0 (pages doc)))"

section \<open>Pass 2: the body style\<close>

definition substantial :: "block \<Rightarrow> bool" where
  "substantial b \<longleftrightarrow> num_lines b > 2 \<or> num_words b > 20"

definition style_word_counts :: "block list \<Rightarrow> (style \<times> nat) list" where
  "style_word_counts blocks =
     foldl (\<lambda>d b. if substantial b then dict_add d (style b) (num_words b) else d) [] blocks"

definition find_body_style :: "block list \<Rightarrow> style option" where
  "find_body_style blocks =
     (if style_word_counts blocks = []
      then (let style_freq = counter (map style blocks)
            in if style_freq = [] then None else max_key style_freq)
      else max_key (style_word_counts blocks))"

section \<open>The title\<close>

text \<open>
  \<open>re.search(r'\.(pdf|docx?|pptx?|xlsx?|cdr)$', title, re.I)\<close>. Under \<open>re.I\<close> a
  lower-case ASCII letter of the pattern matches itself and its capital; the letter
  \<open>s\<close> also matches U+017F, the one further code point the engine treats as a case
  variant of a letter of this pattern. \<open>$\<close> matches at the end of the string and
  before a final newline.
\<close>

definition ci_char :: "nat \<Rightarrow> nat \<Rightarrow> bool" where
  "ci_char p c \<longleftrightarrow> c = p \<or> c + 32 = p \<or> (p = 115 \<and> c = 383)"

definition extensions :: "pystr list" where
  "extensions = map ustr [''pdf'', ''doc'', ''docx'', ''ppt'', ''pptx'', ''xls'', ''xlsx'', ''cdr'']"

definition ends_with_ext :: "pystr \<Rightarrow> pystr \<Rightarrow> bool" where
  "ends_with_ext s e \<longleftrightarrow>
     Suc (length e) \<le> length s \<and>
     (case drop (length s - Suc (length e)) s of
        [] \<Rightarrow> False
      | d # r \<Rightarrow> d = 46 \<and> list_all2 ci_char e r)"

definition filename_like :: "pystr \<Rightarrow> bool" where
  "filename_like s \<longleftrightarrow>
     list_ex (ends_with_ext s) extensions \<or>
     (s \<noteq> [] \<and> last s = 10 \<and> list_ex (ends_with_ext (butlast s)) extensions)"

text \<open>
  The fallback: the lines of the text blocks in the top of page 0, as
  (rounded average size, line text) in document order; this is \<open>font_sizes\<close> with its
  lists flattened.
\<close>

definition line_text :: "top_line \<Rightarrow> pystr" where
  "line_text l = strip (join [32] (filter (\<lambda>s. s \<noteq> []) (map strip (line_spans l))))"

definition font_sizes :: "(int \<times> top_line list) list \<Rightarrow> (int \<times> pystr) list" where
  "font_sizes blocks =
     concat (map (\<lambda>(ty, lines).
       if ty = 0
       then List.map_filter (\<lambda>l.
              if line_text l \<noteq> [] \<and> has_alpha (line_text l) \<and> length (split (line_text l)) < 20
                 \<and> line_spans l \<noteq> []
              then Some (avg_size l, line_text l) else None) lines
       else []) blocks)"

definition largest_text :: "(int \<times> top_line list) list \<Rightarrow> pystr" where
  "largest_text blocks =
     (let fs = font_sizes blocks in
      if fs = [] then []
      else let max_size = Max (set (map fst fs))
           in join [32] (map snd (filter (\<lambda>(a, t). a = max_size) fs)))"

definition metadata_accepts :: "pystr \<Rightarrow> bool" where
  "metadata_accepts t \<longleftrightarrow>
     t \<noteq> [] \<and> length t > 4 \<and> \<not> filename_like t \<and> \<not> contains (ustr ''Microsoft Word'') t"

definition extract_title :: "pdf_doc \<Rightarrow> pystr" where
  "extract_title doc =
     (let t = (case metadata_title doc of None \<Rightarrow> [] | Some m \<Rightarrow> strip m) in
      if metadata_accepts t then t
      else if pages doc = [] then []
      else largest_text (first_page_top doc))"

section \<open>Heading classifier and hierarchy mapper\<close>

definition is_candidate :: "style \<Rightarrow> style \<Rightarrow> bool" where
  "is_candidate st body_style \<longleftrightarrow>
     fst st > fst body_style \<or> (fst st = fst body_style \<and> snd st \<and> \<not> snd body_style)"

text \<open>The body of the filtering loop: \<open>True\<close> when the block reaches \<open>append\<close>.\<close>

definition is_heading_block :: "(nat \<Rightarrow> bool) \<Rightarrow> style \<Rightarrow> block \<Rightarrow> bool" where
  "is_heading_block nd body_style b \<longleftrightarrow>
     (if num_words b > 30 \<or> num_lines b > 3 then False
      else if \<not> is_candidate (style b) body_style then False
      else let text = strip (btext b) in
        if dot_leader text \<or> ends_sentence text then False
        else if list_item_marker nd text then False
        else True)"

definition heading_blocks :: "(nat \<Rightarrow> bool) \<Rightarrow> style \<Rightarrow> block list \<Rightarrow> block list" where
  "heading_blocks nd body_style all_blocks = filter (is_heading_block nd body_style) all_blocks"

text \<open>
  \<open>heading_styles\<close> is a Python set; it is listed here in one order without repetition.
  The order only decides the order in which keys enter \<open>size_groups\<close> and
  \<open>style_to_level\<close>, and both are only looked up by key afterwards.
\<close>

definition heading_styles :: "block list \<Rightarrow> style list" where
  "heading_styles hb = remdups (map style hb)"

fun group_append :: "(int \<times> style list) list \<Rightarrow> style \<Rightarrow> (int \<times> style list) list" where
  "group_append [] st = [(fst st, [st])]"
| "group_append ((k, sts) # g) st =
     (if k = fst st then (k, sts @ [st]) # g else (k, sts) # group_append g st)"

definition size_groups :: "style list \<Rightarrow> (int \<times> style list) list" where
  "size_groups hs = foldl group_append [] hs"

definition group_of :: "(int \<times> style list) list \<Rightarrow> int \<Rightarrow> style list" where
  "group_of g sz = (case map_of g sz of None \<Rightarrow> [] | Some sts \<Rightarrow> sts)"

definition sorted_sizes :: "(int \<times> style list) list \<Rightarrow> int list" where
  "sorted_sizes g = sorted_reverse (\<lambda>k. k) (map fst g)"

definition level_map :: "level list" where
  "level_map = [H 1, H 2, H 3, H 4]"

fun assign_levels ::
  "(int \<times> style list) list \<Rightarrow> nat \<Rightarrow> int list \<Rightarrow> (style \<rightharpoonup> level) \<Rightarrow> (style \<rightharpoonup> level)" where
  "assign_levels g i [] m = m"
| "assign_levels g i (sz # rest) m =
     assign_levels g (Suc i) rest
       (if i < length level_map
        then foldl (\<lambda>m st. m(st \<mapsto> level_map ! i)) m (sorted_reverse snd (group_of g sz))
        else m)"

definition style_to_level :: "block list \<Rightarrow> (style \<rightharpoonup> level)" where
  "style_to_level hb =
     (let g = size_groups (heading_styles hb)
      in assign_levels g 0 (sorted_sizes g) Map.empty)"

text \<open>
  The body of the last loop of \<open>get_outline\<close>: the entry appended for a heading block, or
  \<open>None\<close> when the block has no level or is the title.
\<close>

definition outline_entry ::
  "(nat \<Rightarrow> bool) \<Rightarrow> pystr \<Rightarrow> (style \<rightharpoonup> level) \<Rightarrow> block \<Rightarrow> heading option" where
  "outline_entry nd ttl s2l b =
     (case s2l (style b) of
        None \<Rightarrow> None
      | Some style_level \<Rightarrow>
          let text = join [32] (split (btext b));
              lv = (case list_item_pattern nd text of
                      None \<Rightarrow> style_level
                    | Some g \<Rightarrow> H (int (count_dots g) + 1))
          in if lv = H 1 \<and> page_num b = 1 \<and> text = ttl then None
             else Some \<lparr>h_level = lv, h_text = text, h_page_num = page_num b,
                        h_bbox = Some (bbox b)\<rparr>)"

text \<open>
  The sort key \<open>(x['page_num'], x['bbox'][1])\<close>. Every entry of \<open>final_outline\<close> carries
  the box of its block, so the second case is never reached there.
\<close>

definition outline_key :: "heading \<Rightarrow> int \<times> real" where
  "outline_key h = (h_page_num h, case h_bbox h of Some b \<Rightarrow> bbox_1 b | None \<Rightarrow> 0)"

definition native_outline :: "(int \<times> pystr \<times> int) list \<Rightarrow> heading list" where
  "native_outline t =
     filter (\<lambda>h. has_alpha (h_text h))
       (map (\<lambda>(lv, text, pg). \<lparr>h_level = H lv, h_text = strip text, h_page_num = pg, h_bbox = None\<rparr>)
            (filter (\<lambda>(lv, text, pg). 1 \<le> lv \<and> lv \<le> 4) t))"

definition heuristic_outline :: "(nat \<Rightarrow> bool) \<Rightarrow> pystr \<Rightarrow> block list \<Rightarrow> heading list" where
  "heuristic_outline nd ttl all_blocks =
     (if all_blocks = [] then []
      else (case find_body_style all_blocks of
              None \<Rightarrow> []
            | Some body_style \<Rightarrow>
                let hb = heading_blocks nd body_style all_blocks in
                if hb = [] then []
                else sort_key outline_key
                       (List.map_filter (outline_entry nd ttl (style_to_level hb)) hb)))"

definition get_outline :: "(nat \<Rightarrow> bool) \<Rightarrow> pdf_doc \<Rightarrow> outline_result" where
  "get_outline nd doc =
     (let ttl = extract_title doc in
      if toc doc \<noteq> [] \<and> native_outline (toc doc) \<noteq> []
      then \<lparr>title = ttl, outline = native_outline (toc doc)\<rparr>
      else \<lparr>title = ttl, outline = heuristic_outline nd ttl (get_text_blocks doc)\<rparr>)"

section \<open>Sectionizer\<close>

datatype py_error = IndexError

record sect =
  section_title :: pystr
  page_number :: int
  content :: pystr

text \<open>
  \<open>self.doc[i]\<close>. The indices used below are the page number of a heading with a box,
  minus one, and the page count minus one. A heading with a box comes from a text block,
  whose page number is at least 1, so an index is negative only for a document without
  pages, where the decoder raises, as it does for an index past the last page.
\<close>

definition get_page :: "pdf_doc \<Rightarrow> int \<Rightarrow> py_error + page" where
  "get_page doc i =
     (if 0 \<le> i \<and> i < int (length (pages doc)) then Inr (pages doc ! nat i) else Inl IndexError)"

text \<open>
  The local variables \<open>(start_page, start_y)\<close> and \<open>(end_page, end_y)\<close> of the loop body
  for the heading at index \<open>i\<close> whose box is \<open>b\<close>.
\<close>

definition section_start :: "heading \<Rightarrow> bbox \<Rightarrow> int \<times> real" where
  "section_start heading b = (h_page_num heading - 1, bbox_3 b)"

definition doc_end :: "pdf_doc \<Rightarrow> py_error + int \<times> real" where
  "doc_end doc =
     (let end_page = int (length (pages doc)) - 1 in
      case get_page doc end_page of
        Inl e \<Rightarrow> Inl e
      | Inr p \<Rightarrow> Inr (end_page, page_height p))"

definition section_end :: "pdf_doc \<Rightarrow> heading list \<Rightarrow> nat \<Rightarrow> py_error + int \<times> real" where
  "section_end doc ol i =
     (if i + 1 < length ol
      then (case h_bbox (ol ! (i + 1)) of
              Some nb \<Rightarrow> Inr (h_page_num (ol ! (i + 1)) - 1, bbox_1 nb)
            | None \<Rightarrow> doc_end doc)
      else doc_end doc)"

definition page_clip :: "pdf_doc \<Rightarrow> int \<times> real \<Rightarrow> int \<times> real \<Rightarrow> int \<Rightarrow> py_error + pystr" where
  "page_clip doc st en pn =
     (case get_page doc pn of
        Inl e \<Rightarrow> Inl e
      | Inr p \<Rightarrow>
          let clip_y_start = (if pn = fst st then snd st else 0);
              clip_y_end = (if pn = fst en then snd en else page_height p)
          in Inr (if clip_y_start < clip_y_end then page_text p clip_y_start clip_y_end else []))"

fun clip_pages :: "pdf_doc \<Rightarrow> int \<times> real \<Rightarrow> int \<times> real \<Rightarrow> pystr \<Rightarrow> int list \<Rightarrow> py_error + pystr" where
  "clip_pages doc st en acc [] = Inr acc"
| "clip_pages doc st en acc (pn # pns) =
     (case page_clip doc st en pn of
        Inl e \<Rightarrow> Inl e
      | Inr t \<Rightarrow> clip_pages doc st en (acc @ t) pns)"

text \<open>
  The three substitutions of the clean-up: \<open>(?<!\n)\n(?!\n)\<close> by a space (the character
  before is remembered in the first argument), \<open>' \n'\<close> by \<open>'\n'\<close>, and \<open>\n{2,}\<close> by
  \<open>'\n'\<close>.
\<close>

fun join_wrapped :: "nat option \<Rightarrow> pystr \<Rightarrow> pystr" where
  "join_wrapped prev [] = []"
| "join_wrapped prev (c # cs) =
     (if c = 10 \<and> prev \<noteq> Some 10 \<and> (case cs of [] \<Rightarrow> True | d # _ \<Rightarrow> d \<noteq> 10) then 32 else c)
     # join_wrapped (Some c) cs"

fun fold_space_newline :: "pystr \<Rightarrow> pystr" where
  "fold_space_newline (a # b # r) =
     (if a = 32 \<and> b = 10 then 10 # fold_space_newline r else a # fold_space_newline (b # r))"
| "fold_space_newline s = s"

fun collapse_newlines :: "pystr \<Rightarrow> pystr" where
  "collapse_newlines (a # b # r) =
     (if a = 10 \<and> b = 10 then collapse_newlines (b # r) else a # collapse_newlines (b # r))"
| "collapse_newlines s = s"

definition clean :: "pystr \<Rightarrow> pystr" where
  "clean c = strip (collapse_newlines (fold_space_newline (join_wrapped None c)))"

text \<open>One turn of the loop of \<open>get_sections\<close>: \<open>Inr None\<close> is \<open>continue\<close>.\<close>

definition section_at :: "pdf_doc \<Rightarrow> heading list \<Rightarrow> nat \<Rightarrow> py_error + sect option" where
  "section_at doc ol i =
     (let heading = ol ! i in
      case h_bbox heading of
        None \<Rightarrow> Inr None
      | Some b \<Rightarrow>
          (case section_end doc ol i of
             Inl e \<Rightarrow> Inl e
           | Inr en \<Rightarrow>
               (case clip_pages doc (section_start heading b) en []
                       [fst (section_start heading b) .. fst en] of
                  Inl e \<Rightarrow> Inl e
                | Inr c \<Rightarrow>
                    Inr (Some \<lparr>section_title = h_text heading, page_number = h_page_num heading,
                               content = h_text heading @ [10] @ clean c\<rparr>))))"

fun sections_loop :: "pdf_doc \<Rightarrow> heading list \<Rightarrow> sect list \<Rightarrow> nat list \<Rightarrow> py_error + sect list" where
  "sections_loop doc ol sections [] = Inr sections"
| "sections_loop doc ol sections (i # rest) =
     (case section_at doc ol i of
        Inl e \<Rightarrow> Inl e
      | Inr None \<Rightarrow> sections_loop doc ol sections rest
      | Inr (Some s) \<Rightarrow> sections_loop doc ol (sections @ [s]) rest)"

definition sections_of :: "pdf_doc \<Rightarrow> heading list \<Rightarrow> py_error + sect list" where
  "sections_of doc ol = sections_loop doc ol [] [0 ..< length ol]"

definition get_sections :: "(nat \<Rightarrow> bool) \<Rightarrow> pdf_doc \<Rightarrow> py_error + sect list" where
  "get_sections nd doc = sections_of doc (outline (get_outline nd doc))"

section \<open>Semantic ranker\<close>

text \<open>
  The embedding model and \<open>cosine_similarity\<close> are outside the repository:
  \<open>encode\<close> maps a list of strings to their vectors and \<open>cosine_similarity\<close> two lists
  of vectors to the matrix of their scores. A ranked section is a section with its
  \<open>relevance_score\<close>.
\<close>

record ranked_section = sect +
  relevance_score :: real

definition query_string :: "pystr \<Rightarrow> pystr \<Rightarrow> pystr" where
  "query_string persona job_to_be_done =
     ustr ''User Persona: '' @ persona @ ustr ''. Task: '' @ job_to_be_done"

definition with_score :: "sect \<Rightarrow> real \<Rightarrow> ranked_section" where
  "with_score s r = sect.extend s \<lparr>relevance_score = r\<rparr>"

definition rank_sections ::
  "(pystr list \<Rightarrow> 'v list) \<Rightarrow> ('v list \<Rightarrow> 'v list \<Rightarrow> real list list) \<Rightarrow>
   pystr \<Rightarrow> pystr \<Rightarrow> sect list \<Rightarrow> py_error + ranked_section list" where
  "rank_sections encode cosine_similarity persona job_to_be_done all_sections =
     (if all_sections = [] then Inr []
      else
        let query_embedding = encode [query_string persona job_to_be_done];
            section_embeddings = encode (map content all_sections)
        in case cosine_similarity query_embedding section_embeddings of
             [] \<Rightarrow> Inl IndexError
           | similarities # _ \<Rightarrow>
               if length similarities < length all_sections then Inl IndexError
               else Inr (sorted_reverse relevance_score
                          (map (\<lambda>(s, r). with_score s r) (zip all_sections similarities))))"

section \<open>Notions used in the statements\<close>

definition word_total :: "style \<Rightarrow> block list \<Rightarrow> nat" where
  "word_total st bs = sum_list (map num_words (filter (\<lambda>b. substantial b \<and> style b = st) bs))"

definition block_count :: "style \<Rightarrow> block list \<Rightarrow> nat" where
  "block_count st bs = length (filter (\<lambda>b. style b = st) bs)"

definition dict_get :: "('k \<times> nat) list \<Rightarrow> 'k \<Rightarrow> nat" where
  "dict_get d k = (case map_of d k of None \<Rightarrow> 0 | Some v \<Rightarrow> v)"

text \<open>
  The size rank of a font size among the heading blocks: how many distinct sizes of
  heading blocks are strictly larger.
\<close>

definition size_rank :: "int \<Rightarrow> block list \<Rightarrow> nat" where
  "size_rank sz hb = length (filter (\<lambda>z. sz < z) (remdups (map (\<lambda>b. fst (style b)) hb)))"





text \<open>
  The region of a section in the words of its description. The body of a heading's
  section starts on the heading's page at the bottom of the heading's box
  (\<open>heading_bottom\<close>) and ends on the next heading's page at the top of the next
  heading's box (\<open>heading_top\<close>), or at the bottom of the last page when there is no
  next heading; pages are counted from 0. \<open>region_text\<close> is the text between two such
  boundaries: on each page from the first to the last, the text below the start (on the
  first page) and above the end (on the last page), nothing where the start is not above
  the end. \<open>located\<close> holds of a heading that has a box and a page of the document.
\<close>

definition heading_bottom :: "heading \<Rightarrow> int \<times> real" where
  "heading_bottom h = (h_page_num h - 1, case h_bbox h of Some b \<Rightarrow> bbox_3 b | None \<Rightarrow> 0)"

definition heading_top :: "heading \<Rightarrow> int \<times> real" where
  "heading_top h = (h_page_num h - 1, case h_bbox h of Some b \<Rightarrow> bbox_1 b | None \<Rightarrow> 0)"

definition document_end :: "pdf_doc \<Rightarrow> int \<times> real" where
  "document_end doc = (int (length (pages doc)) - 1, page_height (last (pages doc)))"

definition region_end :: "pdf_doc \<Rightarrow> heading list \<Rightarrow> nat \<Rightarrow> int \<times> real" where
  "region_end doc ol i = (if i + 1 < length ol then heading_top (ol ! (i + 1)) else document_end doc)"

definition clip_on_page :: "pdf_doc \<Rightarrow> int \<times> real \<Rightarrow> int \<times> real \<Rightarrow> int \<Rightarrow> pystr" where
  "clip_on_page doc st en pn =
     (let p = pages doc ! nat pn;
          a = (if pn = fst st then snd st else 0);
          e = (if pn = fst en then snd en else page_height p)
      in if a < e then page_text p a e else [])"

definition region_text :: "pdf_doc \<Rightarrow> int \<times> real \<Rightarrow> int \<times> real \<Rightarrow> pystr" where
  "region_text doc st en = concat (map (clip_on_page doc st en) [fst st .. fst en])"

definition expected_section :: "pdf_doc \<Rightarrow> heading list \<Rightarrow> nat \<Rightarrow> sect" where
  "expected_section doc ol i =
     \<lparr>section_title = h_text (ol ! i), page_number = h_page_num (ol ! i),
      content = h_text (ol ! i) @ [10] @
                clean (region_text doc (heading_bottom (ol ! i)) (region_end doc ol i))\<rparr>"

definition located :: "pdf_doc \<Rightarrow> heading \<Rightarrow> bool" where
  "located doc h \<longleftrightarrow>
     h_bbox h \<noteq> None \<and> 1 \<le> h_page_num h \<and> h_page_num h \<le> int (length (pages doc))"

text \<open>
  A numbering in the words of its description: one or more groups of one or more digits,
  written with single periods between them (\<open>N\<close>, \<open>N.N\<close>, \<open>N.N.N\<close>, ...).
  \<open>digits_apart\<close> is what every decimal-digit table satisfies: the period is no digit
  and no digit is whitespace.
\<close>

definition digit_run :: "(nat \<Rightarrow> bool) \<Rightarrow> pystr \<Rightarrow> bool" where
  "digit_run nd g \<longleftrightarrow> g \<noteq> [] \<and> list_all nd g"

definition numbering :: "(nat \<Rightarrow> bool) \<Rightarrow> pystr list \<Rightarrow> bool" where
  "numbering nd gs \<longleftrightarrow> gs \<noteq> [] \<and> list_all (digit_run nd) gs"

definition digits_apart :: "(nat \<Rightarrow> bool) \<Rightarrow> bool" where
  "digits_apart nd \<longleftrightarrow> \<not> nd 46 \<and> (\<forall>c. nd c \<longrightarrow> \<not> py_isspace c)"

section \<open>Example inputs\<close>

definition sample_sections :: "sect list" where
  "sample_sections =
     [\<lparr>section_title = ustr ''Tax law'', page_number = 1, content = ustr ''Tax law filing''\<rparr>,
      \<lparr>section_title = ustr ''Hiking'', page_number = 2, content = ustr ''Hiking trails''\<rparr>,
      \<lparr>section_title = ustr ''Visas'', page_number = 3, content = ustr ''Visas rules''\<rparr>]"

definition sample_similarity :: "pystr list \<Rightarrow> pystr list \<Rightarrow> real list list" where
  "sample_similarity q s = [[1/2, 9/10, 1/2]]"

definition sample_ranking :: "ranked_section list" where
  "sample_ranking =
     [with_score (sample_sections ! 1) (9/10), with_score (sample_sections ! 0) (1/2),
      with_score (sample_sections ! 2) (1/2)]"

text \<open>
  Documents as the decoder delivers them. \<open>one_span_block\<close> is a text block of one line
  with one span; \<open>paragraph_block\<close> is a body paragraph of three lines.
\<close>

definition one_span_block :: "pystr \<Rightarrow> int \<Rightarrow> bool \<Rightarrow> bbox \<Rightarrow> raw_block" where
  "one_span_block t sz bold box =
     \<lparr>block_type = 0,
      block_lines = [[\<lparr>span_text = t, span_size = sz, span_bold = bold\<rparr>]],
      block_bbox = box\<rparr>"

definition paragraph_block :: "bbox \<Rightarrow> raw_block" where
  "paragraph_block box =
     \<lparr>block_type = 0,
      block_lines = [[\<lparr>span_text = ustr ''Body text'', span_size = 12, span_bold = False\<rparr>],
                     [\<lparr>span_text = ustr ''goes on'', span_size = 12, span_bold = False\<rparr>],
                     [\<lparr>span_text = ustr ''and on.'', span_size = 12, span_bold = False\<rparr>]],
      block_bbox = box\<rparr>"

definition one_line :: "pystr \<Rightarrow> int \<Rightarrow> int \<times> top_line list" where
  "one_line t sz = (0, [\<lparr>line_spans = [t], avg_size = sz\<rparr>])"

definition paragraph_lines :: "int \<times> top_line list" where
  "paragraph_lines =
     (0, [\<lparr>line_spans = [ustr ''Body text''], avg_size = 12\<rparr>,
          \<lparr>line_spans = [ustr ''goes on''], avg_size = 12\<rparr>,
          \<lparr>line_spans = [ustr ''and on.''], avg_size = 12\<rparr>])"

text \<open>
  One page: a heading in 18 bold, a body paragraph in 12, a numbered heading in 14 bold
  and a last body line. The metadata carry the title.
\<close>

definition scenario_pages :: "page list" where
  "scenario_pages =
     [\<lparr>page_blocks =
         [one_span_block (ustr ''Introduction'') 18 True (72, 72, 300, 92),
          paragraph_block (72, 100, 500, 140),
          one_span_block (ustr ''3.2.1 Setup'') 14 True (72, 150, 300, 166),
          one_span_block (ustr ''More body text.'') 12 False (72, 170, 500, 185)],
       page_height = 792,
       page_text = (\<lambda>a b. if a < 100
                            then ustr ''Body text'' @ [10] @ ustr ''goes on'' @ [10] @
                                 ustr ''and on.'' @ [10]
                            else ustr ''More body text.'' @ [10])\<rparr>]"

definition scenario_top :: "(int \<times> top_line list) list" where
  "scenario_top =
     [one_line (ustr ''Introduction'') 18, paragraph_lines,
      one_line (ustr ''3.2.1 Setup'') 14, one_line (ustr ''More body text.'') 12]"

definition scenario_doc :: pdf_doc where
  "scenario_doc =
     \<lparr>metadata_title = Some (ustr ''Sample Report''), toc = [],
      pages = scenario_pages, first_page_top = scenario_top\<rparr>"

definition scenario_blocks :: "block list" where
  "scenario_blocks =
     [\<lparr>btext = ustr ''Introduction'', style = (18, True), bbox = (72, 72, 300, 92),
       page_num = 1, num_lines = 1, num_words = 1\<rparr>,
      \<lparr>btext = ustr ''Body text goes on and on.'', style = (12, False),
       bbox = (72, 100, 500, 140), page_num = 1, num_lines = 3, num_words = 6\<rparr>,
      \<lparr>btext = ustr ''3.2.1 Setup'', style = (14, True), bbox = (72, 150, 300, 166),
       page_num = 1, num_lines = 1, num_words = 2\<rparr>,
      \<lparr>btext = ustr ''More body text.'', style = (12, False), bbox = (72, 170, 500, 185),
       page_num = 1, num_lines = 1, num_words = 3\<rparr>]"

definition scenario_outline :: "heading list" where
  "scenario_outline =
     [\<lparr>h_level = H 1, h_text = ustr ''Introduction'', h_page_num = 1,
       h_bbox = Some (72, 72, 300, 92)\<rparr>,
      \<lparr>h_level = H 3, h_text = ustr ''3.2.1 Setup'', h_page_num = 1,
       h_bbox = Some (72, 150, 300, 166)\<rparr>]"

text \<open>The same page behind a native outline whose two entries have no letter.\<close>

definition letterless_toc_doc :: pdf_doc where
  "letterless_toc_doc = scenario_doc\<lparr>toc := [(1, ustr ''1.'', 1), (2, ustr ''2024'', 1)]\<rparr>"

text \<open>The same page behind a native outline of two entries.\<close>

definition native_doc :: pdf_doc where
  "native_doc = scenario_doc\<lparr>toc := [(1, ustr ''Introduction'', 1), (2, ustr ''Setup'', 1)]\<rparr>"

text \<open>
  One page with headings in five sizes above a body of size 12; the numbered heading has
  the smallest of them.
\<close>

definition five_sizes_doc :: pdf_doc where
  "five_sizes_doc =
     \<lparr>metadata_title = Some (ustr ''Sample Report''), toc = [],
      pages =
        [\<lparr>page_blocks =
            [one_span_block (ustr ''Part One'') 24 True (72, 40, 300, 66),
             one_span_block (ustr ''Chapter'') 20 True (72, 70, 300, 92),
             one_span_block (ustr ''Section'') 18 False (72, 100, 300, 120),
             one_span_block (ustr ''Topic'') 16 True (72, 130, 300, 148),
             one_span_block (ustr ''3.2.1 Setup'') 14 True (72, 150, 300, 166),
             paragraph_block (72, 170, 500, 210)],
          page_height = 792,
          page_text = (\<lambda>a b. ustr ''Body text'')\<rparr>],
      first_page_top =
        [one_line (ustr ''Part One'') 24, one_line (ustr ''Chapter'') 20,
         one_line (ustr ''Section'') 18, one_line (ustr ''Topic'') 16,
         one_line (ustr ''3.2.1 Setup'') 14, paragraph_lines]\<rparr>"

definition five_sizes_blocks :: "block list" where
  "five_sizes_blocks =
     [\<lparr>btext = ustr ''Part One'', style = (24, True), bbox = (72, 40, 300, 66),
       page_num = 1, num_lines = 1, num_words = 2\<rparr>,
      \<lparr>btext = ustr ''Chapter'', style = (20, True), bbox = (72, 70, 300, 92),
       page_num = 1, num_lines = 1, num_words = 1\<rparr>,
      \<lparr>btext = ustr ''Section'', style = (18, False), bbox = (72, 100, 300, 120),
       page_num = 1, num_lines = 1, num_words = 1\<rparr>,
      \<lparr>btext = ustr ''Topic'', style = (16, True), bbox = (72, 130, 300, 148),
       page_num = 1, num_lines = 1, num_words = 1\<rparr>,
      \<lparr>btext = ustr ''3.2.1 Setup'', style = (14, True), bbox = (72, 150, 300, 166),
       page_num = 1, num_lines = 1, num_words = 2\<rparr>]"

text \<open>One page with a heading numbered five levels deep.\<close>

definition numbered_doc :: pdf_doc where
  "numbered_doc =
     \<lparr>metadata_title = Some (ustr ''Sample Report''), toc = [],
      pages =
        [\<lparr>page_blocks =
            [one_span_block (ustr ''1.2.3.4.5 Tolerances'') 14 True (72, 72, 300, 88),
             paragraph_block (72, 100, 500, 140)],
          page_height = 792,
          page_text = (\<lambda>a b. ustr ''Body text'')\<rparr>],
      first_page_top = [one_line (ustr ''1.2.3.4.5 Tolerances'') 14, paragraph_lines]\<rparr>"


definition empty_doc :: pdf_doc where
  "empty_doc = \<lparr>metadata_title = None, toc = [], pages = [], first_page_top = []\<rparr>"

definition five_sizes_text_blocks :: "block list" where
  "five_sizes_text_blocks =
     five_sizes_blocks @
     [\<lparr>btext = ustr ''Body text goes on and on.'', style = (12, False),
       bbox = (72, 170, 500, 210), page_num = 1, num_lines = 3, num_words = 6\<rparr>]"

definition five_sizes_outline :: "heading list" where
  "five_sizes_outline =
     [\<lparr>h_level = H 1, h_text = ustr ''Part One'', h_page_num = 1,
       h_bbox = Some (72, 40, 300, 66)\<rparr>,
      \<lparr>h_level = H 2, h_text = ustr ''Chapter'', h_page_num = 1,
       h_bbox = Some (72, 70, 300, 92)\<rparr>,
      \<lparr>h_level = H 3, h_text = ustr ''Section'', h_page_num = 1,
       h_bbox = Some (72, 100, 300, 120)\<rparr>,
      \<lparr>h_level = H 4, h_text = ustr ''Topic'', h_page_num = 1,
       h_bbox = Some (72, 130, 300, 148)\<rparr>]"

definition numbered_blocks :: "block list" where
  "numbered_blocks =
     [\<lparr>btext = ustr ''1.2.3.4.5 Tolerances'', style = (14, True), bbox = (72, 72, 300, 88),
       page_num = 1, num_lines = 1, num_words = 2\<rparr>,
      \<lparr>btext = ustr ''Body text goes on and on.'', style = (12, False),
       bbox = (72, 100, 500, 140), page_num = 1, num_lines = 3, num_words = 6\<rparr>]"

definition numbered_outline :: "heading list" where
  "numbered_outline =
     [\<lparr>h_level = H 5, h_text = ustr ''1.2.3.4.5 Tolerances'', h_page_num = 1,
       h_bbox = Some (72, 72, 300, 88)\<rparr>]"

definition native_doc_outline :: "heading list" where
  "native_doc_outline =
     [\<lparr>h_level = H 1, h_text = ustr ''Introduction'', h_page_num = 1, h_bbox = None\<rparr>,
      \<lparr>h_level = H 2, h_text = ustr ''Setup'', h_page_num = 1, h_bbox = None\<rparr>]"

definition scenario_sections :: "sect list" where
  "scenario_sections =
     [\<lparr>section_title = ustr ''Introduction'', page_number = 1,
       content = ustr ''Introduction'' @ [10] @ ustr ''Body text goes on and on.''\<rparr>,
      \<lparr>section_title = ustr ''3.2.1 Setup'', page_number = 1,
       content = ustr ''3.2.1 Setup'' @ [10] @ ustr ''More body text.''\<rparr>]"



text \<open>A heading on page 1 that starts with a year.\<close>

definition year_block :: block where
  "year_block =
     \<lparr>btext = ustr ''2024 Report'', style = (18, True), bbox = (72, 40, 300, 66),
      page_num = 1, num_lines = 1, num_words = 2\<rparr>"

section \<open>Properties of the level assignment\<close>

lemma group_append_keys: "fst ` set (group_append g st) = insert (fst st) (fst ` set g)"
  by (induction g) (force split: if_splits)+

lemma group_append_distinct:
  "distinct (map fst g) \<Longrightarrow> distinct (map fst (group_append g st))"
proof (induction g)
  case Nil
  then show ?case by simp
next
  case (Cons a g)
  obtain k sts where a: "a = (k, sts)" by (cases a)
  from Cons have "k \<notin> fst ` set g" "distinct (map fst (group_append g st))" by (auto simp: a)
  then show ?case using Cons.prems by (auto simp: a group_append_keys)
qed

lemma group_append_group_of:
  "group_of (group_append g st) sz = (if sz = fst st then group_of g sz @ [st] else group_of g sz)"
  by (induction g) (auto simp: group_of_def)

lemma size_groups_keys_aux:
  "fst ` set (foldl group_append g hs) = fst ` set g \<union> fst ` set hs"
  by (induction hs arbitrary: g) (auto simp: group_append_keys)

lemma size_groups_distinct_aux:
  "distinct (map fst g) \<Longrightarrow> distinct (map fst (foldl group_append g hs))"
  by (induction hs arbitrary: g) (auto simp: group_append_distinct)

lemma size_groups_group_of_aux:
  "group_of (foldl group_append g hs) sz = group_of g sz @ filter (\<lambda>st. fst st = sz) hs"
  by (induction hs arbitrary: g) (auto simp: group_append_group_of)

lemma size_groups_keys: "fst ` set (size_groups hs) = fst ` set hs"
  using size_groups_keys_aux [of "[]" hs] by (simp add: size_groups_def)

lemma size_groups_distinct: "distinct (map fst (size_groups hs))"
  using size_groups_distinct_aux [of "[]" hs] by (simp add: size_groups_def)

lemma size_groups_group_of: "group_of (size_groups hs) sz = filter (\<lambda>st. fst st = sz) hs"
  using size_groups_group_of_aux [of "[]" hs sz] by (simp add: size_groups_def group_of_def)

lemma set_sorted_reverse [simp]: "set (sorted_reverse f xs) = set xs"
  by (simp add: sorted_reverse_def)

lemma sorted_sizes_set: "set (sorted_sizes g) = set (map fst g)"
  by (simp add: sorted_sizes_def)

lemma sorted_sizes_descending:
  assumes "distinct (map fst g)"
  shows "sorted_wrt (\<lambda>a b. b < a) (sorted_sizes g)"
proof -
  have "sorted (sort (rev (map fst g)))" "distinct (sort (rev (map fst g)))"
    using assms by simp_all
  then have "sorted_wrt (<) (sort (rev (map fst g)))"
    by (simp add: strict_sorted_iff)
  then show ?thesis
    by (simp add: sorted_sizes_def sorted_reverse_def sorted_wrt_rev)
qed

lemma descending_distinct: "sorted_wrt (\<lambda>a b. b < a) (xs :: int list) \<Longrightarrow> distinct xs"
  by (induction xs) auto

lemma descending_index:
  "sorted_wrt (\<lambda>a b. b < a) (xs :: int list) \<Longrightarrow> j < length xs \<Longrightarrow>
   filter (\<lambda>z. xs ! j < z) xs = take j xs"
proof (induction xs arbitrary: j)
  case Nil
  then show ?case by simp
next
  case (Cons x xs)
  show ?case
  proof (cases j)
    case 0
    from Cons.prems(1) have "\<forall>z \<in> set xs. \<not> x < z" by auto
    then have "filter (\<lambda>z. x < z) xs = []" by (simp add: filter_empty_conv)
    with 0 show ?thesis by simp
  next
    case (Suc k)
    with Cons.prems have k: "k < length xs" and s: "sorted_wrt (\<lambda>a b. b < a) xs" by auto
    from Cons.prems(1) k have "xs ! k < x" by auto
    with Suc Cons.IH [OF s k] show ?thesis by simp
  qed
qed

lemma foldl_assign:
  "foldl (\<lambda>m st. m(st \<mapsto> v)) m xs st' = (if st' \<in> set xs then Some v else m st')"
  by (induction xs arbitrary: m) auto

lemma assign_levels_outside:
  "\<forall>sz \<in> set sizes. st \<notin> set (group_of g sz) \<Longrightarrow> assign_levels g i sizes m st = m st"
  by (induction sizes arbitrary: i m) (auto simp: foldl_assign)

lemma assign_levels_at:
  assumes "distinct sizes" "j < length sizes" "st \<in> set (group_of g (sizes ! j))"
    and "\<And>sz s. s \<in> set (group_of g sz) \<Longrightarrow> fst s = sz"
  shows "assign_levels g i sizes m st =
           (if i + j < length level_map then Some (level_map ! (i + j)) else m st)"
  using assms(1-3)
proof (induction sizes arbitrary: i j m)
  case Nil
  then show ?case by simp
next
  case (Cons sz sizes)
  show ?case
  proof (cases j)
    case 0
    with Cons.prems have here: "st \<in> set (group_of g sz)" by simp
    then have "fst st = sz" by (rule assms(4))
    have "\<forall>z \<in> set sizes. st \<notin> set (group_of g z)"
    proof
      fix z assume z: "z \<in> set sizes"
      show "st \<notin> set (group_of g z)"
      proof
        assume "st \<in> set (group_of g z)"
        then have "fst st = z" by (rule assms(4))
        with \<open>fst st = sz\<close> z Cons.prems(1) show False by simp
      qed
    qed
    then show ?thesis using 0 here
      by (simp add: assign_levels_outside foldl_assign)
  next
    case (Suc k)
    with Cons.prems have "distinct sizes" "k < length sizes" "st \<in> set (group_of g (sizes ! k))"
      by auto
    from Cons.IH [OF this] have ih: "assign_levels g (Suc i) sizes m' st =
        (if Suc i + k < length level_map then Some (level_map ! (Suc i + k)) else m' st)" for m' .
    from \<open>st \<in> set (group_of g (sizes ! k))\<close> have "fst st = sizes ! k" by (rule assms(4))
    with Cons.prems(1) \<open>k < length sizes\<close> have "fst st \<noteq> sz" by auto
    then have "st \<notin> set (group_of g sz)" using assms(4) by blast
    then show ?thesis using Suc
      by (auto simp: ih foldl_assign level_map_def)
  qed
qed

lemma level_map_nth: "j < 4 \<Longrightarrow> level_map ! j = H (int j + 1)"
proof -
  assume "j < 4"
  then consider "j = 0" | "j = 1" | "j = 2" | "j = 3" by linarith
  then show ?thesis by cases (simp_all add: level_map_def)
qed

lemma size_rank_index:
  assumes "j < length (sorted_sizes (size_groups (heading_styles hb)))"
  shows "size_rank (sorted_sizes (size_groups (heading_styles hb)) ! j) hb = j"
proof -
  let ?sizes = "sorted_sizes (size_groups (heading_styles hb))"
  let ?ds = "remdups (map (\<lambda>b. fst (style b)) hb)"
  have desc: "sorted_wrt (\<lambda>a b. b < a) ?sizes"
    by (rule sorted_sizes_descending) (rule size_groups_distinct)
  have same: "set ?sizes = set ?ds"
    by (simp add: sorted_sizes_set size_groups_keys heading_styles_def image_image)
  have "length (filter (\<lambda>z. ?sizes ! j < z) ?ds) = card ({z. ?sizes ! j < z} \<inter> set ?ds)"
    by (rule distinct_length_filter) simp
  also have "\<dots> = card ({z. ?sizes ! j < z} \<inter> set ?sizes)" by (simp only: same)
  also have "\<dots> = length (filter (\<lambda>z. ?sizes ! j < z) ?sizes)"
    by (rule distinct_length_filter [symmetric]) (rule descending_distinct [OF desc])
  also have "\<dots> = j" using descending_index [OF desc assms] assms by simp
  finally show ?thesis by (simp add: size_rank_def)
qed

lemma style_to_level_rank:
  "style_to_level hb st =
     (if st \<in> style ` set hb \<and> size_rank (fst st) hb < 4
      then Some (H (int (size_rank (fst st) hb) + 1)) else None)"
proof -
  let ?hs = "heading_styles hb"
  let ?g = "size_groups ?hs"
  let ?sizes = "sorted_sizes ?g"
  have grp: "group_of ?g sz = filter (\<lambda>s. fst s = sz) ?hs" for sz
    by (rule size_groups_group_of)
  have hs: "set ?hs = style ` set hb" by (simp add: heading_styles_def)
  have s2l: "style_to_level hb = assign_levels ?g 0 ?sizes Map.empty"
    by (simp add: style_to_level_def Let_def)
  show ?thesis
  proof (cases "st \<in> style ` set hb")
    case False
    then have "\<forall>sz \<in> set ?sizes. st \<notin> set (group_of ?g sz)" by (simp add: grp hs)
    then show ?thesis using False by (simp add: s2l assign_levels_outside)
  next
    case True
    then have "fst st \<in> set ?sizes"
      by (simp add: sorted_sizes_set size_groups_keys hs)
    then obtain j where j: "j < length ?sizes" "?sizes ! j = fst st"
      by (auto simp: in_set_conv_nth)
    have d: "distinct ?sizes"
      by (rule descending_distinct [OF sorted_sizes_descending [OF size_groups_distinct]])
    have mem: "st \<in> set (group_of ?g (?sizes ! j))" using True j by (simp add: grp hs)
    have "assign_levels ?g 0 ?sizes Map.empty st =
            (if 0 + j < length level_map then Some (level_map ! (0 + j)) else Map.empty st)"
      by (rule assign_levels_at [OF d j(1) mem]) (simp add: grp)
    moreover have "size_rank (fst st) hb = j" using size_rank_index [OF j(1)] j(2) by simp
    moreover have "length level_map = 4" by (simp add: level_map_def)
    ultimately show ?thesis using True
      by (simp add: s2l level_map_nth)
  qed
qed

lemma size_rank_less:
  assumes "b \<in> set hb" "sz < fst (style b)"
  shows "size_rank (fst (style b)) hb < size_rank sz hb"
proof -
  let ?ds = "remdups (map (\<lambda>b. fst (style b)) hb)"
  let ?a = "fst (style b)"
  have "filter (\<lambda>z. ?a < z) ?ds = filter (\<lambda>z. ?a < z) (filter (\<lambda>z. sz < z) ?ds)"
    using assms(2) by (auto intro: filter_cong)
  moreover have "?a \<in> set (filter (\<lambda>z. sz < z) ?ds)" using assms by auto
  then have "length (filter (\<lambda>z. ?a < z) (filter (\<lambda>z. sz < z) ?ds)) <
             length (filter (\<lambda>z. sz < z) ?ds)"
    by (rule length_filter_less) simp
  ultimately show ?thesis by (simp add: size_rank_def)
qed

lemma outline_entry_level:
  "outline_entry nd ttl s2l b = Some h \<Longrightarrow> s2l (style b) \<noteq> None"
  by (auto simp: outline_entry_def split: option.splits)

lemma heuristic_outline_source:
  assumes "h \<in> set (heuristic_outline nd ttl bs)"
  shows "\<exists>body c. find_body_style bs = Some body \<and> c \<in> set (heading_blocks nd body bs) \<and>
           outline_entry nd ttl (style_to_level (heading_blocks nd body bs)) c = Some h"
proof -
  from assms obtain body where body: "find_body_style bs = Some body"
    by (cases "find_body_style bs") (auto simp: heuristic_outline_def split: if_splits)
  let ?hb = "heading_blocks nd body bs"
  from assms body have "h \<in> set (List.map_filter (outline_entry nd ttl (style_to_level ?hb)) ?hb)"
    by (auto simp: heuristic_outline_def Let_def split: if_splits)
  then obtain c where "c \<in> set ?hb" "outline_entry nd ttl (style_to_level ?hb) c = Some h"
    by (auto simp: List.map_filter_def)
  with body show ?thesis by blast
qed

lemma heuristic_outline_member:
  assumes "find_body_style bs = Some body" "b \<in> set (heading_blocks nd body bs)"
    and "outline_entry nd ttl (style_to_level (heading_blocks nd body bs)) b = Some h"
  shows "h \<in> set (heuristic_outline nd ttl bs)"
proof -
  let ?hb = "heading_blocks nd body bs"
  from assms(2) have ne: "?hb \<noteq> []" by auto
  then have "bs \<noteq> []" by (auto simp: heading_blocks_def)
  with assms(1) ne have "heuristic_outline nd ttl bs =
      sort_key outline_key (List.map_filter (outline_entry nd ttl (style_to_level ?hb)) ?hb)"
    by (simp add: heuristic_outline_def Let_def)
  moreover from assms(2,3) have "h \<in> set (List.map_filter (outline_entry nd ttl (style_to_level ?hb)) ?hb)"
    by (force simp: List.map_filter_def)
  ultimately show ?thesis by simp
qed

lemma setup_pattern:
  assumes "nd 49" "nd 50" "nd 51" "\<not> nd 46" "\<not> nd 32"
  shows "list_item_pattern nd (ustr ''3.2.1 Setup'') = Some (ustr ''3.2.1'')"
  using assms
  by (simp add: list_item_pattern_def number_groups.simps starts_space_def ustr_def py_isspace_def)

section \<open>Properties of the body style\<close>

lemma dict_add_keys: "fst ` set (dict_add d k v) = insert k (fst ` set d)"
  by (induction d) (force split: if_splits)+

lemma dict_add_distinct: "distinct (map fst d) \<Longrightarrow> distinct (map fst (dict_add d k v))"
proof (induction d)
  case Nil
  then show ?case by simp
next
  case (Cons a d)
  obtain k' v' where a: "a = (k', v')" by (cases a)
  from Cons have "k' \<notin> fst ` set d" "distinct (map fst (dict_add d k v))" by (auto simp: a)
  then show ?case using Cons.prems by (auto simp: a dict_add_keys)
qed

lemma dict_add_get: "dict_get (dict_add d k v) k' = (if k' = k then dict_get d k + v else dict_get d k')"
  by (induction d) (auto simp: dict_get_def)

lemma foldl_dict_keys:
  "fst ` set (foldl (\<lambda>d b. if P b then dict_add d (key b) (val b) else d) d bs) =
     fst ` set d \<union> key ` {b \<in> set bs. P b}"
  by (induction bs arbitrary: d) (auto simp: dict_add_keys)

lemma foldl_dict_distinct:
  "distinct (map fst d) \<Longrightarrow>
   distinct (map fst (foldl (\<lambda>d b. if P b then dict_add d (key b) (val b) else d) d bs))"
  by (induction bs arbitrary: d) (auto simp: dict_add_distinct)

lemma foldl_dict_get:
  "dict_get (foldl (\<lambda>d b. if P b then dict_add d (key b) (val b) else d) d bs) k =
     dict_get d k + sum_list (map val (filter (\<lambda>b. P b \<and> key b = k) bs))"
  by (induction bs arbitrary: d) (auto simp: dict_add_get)

lemma max_from_spec:
  "\<exists>w. (max_from (k, v) d, w) \<in> set ((k, v) # d) \<and> (\<forall>(k', v') \<in> set ((k, v) # d). v' \<le> w)"
proof (induction d arbitrary: k v)
  case Nil
  then show ?case by simp
next
  case (Cons a d)
  obtain k' v' where a: "a = (k', v')" by (cases a)
  show ?case
  proof (cases "v < v'")
    case True
    from Cons [of k' v'] obtain w where
      "(max_from (k', v') d, w) \<in> set ((k', v') # d)" "\<forall>(x, y) \<in> set ((k', v') # d). y \<le> w"
      by blast
    with True show ?thesis by (intro exI [of _ w]) (auto simp: a)
  next
    case False
    from Cons [of k v] obtain w where
      "(max_from (k, v) d, w) \<in> set ((k, v) # d)" "\<forall>(x, y) \<in> set ((k, v) # d). y \<le> w"
      by blast
    with False show ?thesis by (intro exI [of _ w]) (auto simp: a)
  qed
qed

lemma dict_get_distinct: "distinct (map fst d) \<Longrightarrow> (k, v) \<in> set d \<Longrightarrow> dict_get d k = v"
  by (simp add: dict_get_def)

lemma max_key_spec:
  assumes "d \<noteq> []" "distinct (map fst d)"
  shows "\<exists>k. max_key d = Some k \<and> k \<in> fst ` set d \<and> (\<forall>k'. dict_get d k' \<le> dict_get d k)"
proof -
  from assms(1) obtain k v r where d: "d = (k, v) # r" by (cases d) auto
  from max_from_spec [of k v r] obtain w where
    w: "(max_from (k, v) r, w) \<in> set d" "\<forall>(k', v') \<in> set d. v' \<le> w"
    by (auto simp: d)
  have top: "dict_get d (max_from (k, v) r) = w"
    using assms(2) w(1) by (rule dict_get_distinct)
  have "dict_get d k' \<le> w" for k'
  proof (cases "map_of d k'")
    case None
    then show ?thesis by (simp add: dict_get_def)
  next
    case (Some v')
    then have "(k', v') \<in> set d" by (rule map_of_SomeD)
    with w(2) Some show ?thesis by (auto simp: dict_get_def)
  qed
  with top w(1) show ?thesis
    by (intro exI [of _ "max_from (k, v) r"]) (force simp: max_key_def d)
qed

lemma style_word_counts_get: "dict_get (style_word_counts bs) st = word_total st bs"
  unfolding style_word_counts_def word_total_def
  using foldl_dict_get [of substantial style num_words "[]" bs st]
  by (simp add: dict_get_def)

lemma style_word_counts_keys:
  "fst ` set (style_word_counts bs) = style ` {b \<in> set bs. substantial b}"
  unfolding style_word_counts_def
  using foldl_dict_keys [of substantial style num_words "[]" bs] by simp

lemma style_word_counts_distinct: "distinct (map fst (style_word_counts bs))"
  unfolding style_word_counts_def
  using foldl_dict_distinct [of "[]" substantial style num_words bs] by simp

lemma counter_get: "dict_get (counter xs) x = length (filter (\<lambda>y. y = x) xs)"
  unfolding counter_def
  using foldl_dict_get [of "\<lambda>_. True" "\<lambda>y. y" "\<lambda>_. 1" "[]" xs x]
  by (simp add: dict_get_def sum_list_triv)

lemma counter_keys: "fst ` set (counter xs) = set xs"
  unfolding counter_def
  using foldl_dict_keys [of "\<lambda>_. True" "\<lambda>y. y" "\<lambda>_. 1" "[]" xs] by simp

lemma counter_distinct: "distinct (map fst (counter xs))"
  unfolding counter_def
  using foldl_dict_distinct [of "[]" "\<lambda>_. True" "\<lambda>y. y" "\<lambda>_. 1" xs] by simp

lemma block_count_counter: "dict_get (counter (map style bs)) st = block_count st bs"
  by (simp add: counter_get block_count_def filter_map comp_def)

lemma find_body_style_substantial:
  assumes "\<exists>b \<in> set bs. substantial b"
  shows "\<exists>st. find_body_style bs = Some st \<and> (\<exists>b \<in> set bs. substantial b \<and> style b = st) \<and>
           (\<forall>st'. word_total st' bs \<le> word_total st bs)"
proof -
  from assms have "fst ` set (style_word_counts bs) \<noteq> {}"
    by (auto simp: style_word_counts_keys)
  then have ne: "style_word_counts bs \<noteq> []" by auto
  from max_key_spec [OF ne style_word_counts_distinct] obtain st where
    "max_key (style_word_counts bs) = Some st" "st \<in> fst ` set (style_word_counts bs)"
    "\<forall>k'. dict_get (style_word_counts bs) k' \<le> dict_get (style_word_counts bs) st"
    by blast
  with ne show ?thesis
    by (intro exI [of _ st]) (auto simp: find_body_style_def style_word_counts_get style_word_counts_keys)
qed

lemma find_body_style_fallback:
  assumes "bs \<noteq> []" "\<forall>b \<in> set bs. \<not> substantial b"
  shows "\<exists>st. find_body_style bs = Some st \<and> st \<in> style ` set bs \<and>
           (\<forall>st'. block_count st' bs \<le> block_count st bs)"
proof -
  from assms(2) have "fst ` set (style_word_counts bs) = {}"
    by (auto simp: style_word_counts_keys)
  then have e: "style_word_counts bs = []" by auto
  from assms(1) have "fst ` set (counter (map style bs)) \<noteq> {}"
    by (simp add: counter_keys)
  then have ne: "counter (map style bs) \<noteq> []" by auto
  from max_key_spec [OF ne counter_distinct] obtain st where
    "max_key (counter (map style bs)) = Some st" "st \<in> fst ` set (counter (map style bs))"
    "\<forall>k'. dict_get (counter (map style bs)) k' \<le> dict_get (counter (map style bs)) st"
    by blast
  with ne e show ?thesis
    by (intro exI [of _ st]) (auto simp: find_body_style_def block_count_counter counter_keys Let_def)
qed

lemma find_body_style_None: "find_body_style bs = None \<longleftrightarrow> bs = []"
proof
  assume n: "find_body_style bs = None"
  show "bs = []"
  proof (rule ccontr)
    assume ne: "bs \<noteq> []"
    show False
    proof (cases "\<exists>b \<in> set bs. substantial b")
      case True
      from find_body_style_substantial [OF True] n show False by auto
    next
      case False
      then have "\<forall>b \<in> set bs. \<not> substantial b" by blast
      from find_body_style_fallback [OF ne this] n show False by auto
    qed
  qed
next
  assume "bs = []"
  then show "find_body_style bs = None"
    by (simp add: find_body_style_def style_word_counts_def counter_def)
qed

section \<open>Properties of the two paths and of the sectionizer\<close>

lemma native_outline_no_bbox: "h \<in> set (native_outline t) \<Longrightarrow> h_bbox h = None"
  by (auto simp: native_outline_def)

lemma native_outline_filter:
  "native_outline t =
     map (\<lambda>(lv, text, pg). \<lparr>h_level = H lv, h_text = strip text, h_page_num = pg, h_bbox = None\<rparr>)
       (filter (\<lambda>(lv, text, pg). 1 \<le> lv \<and> lv \<le> 4 \<and> has_alpha (strip text)) t)"
  by (induction t) (auto simp: native_outline_def)

lemma get_outline_native:
  "native_outline (toc doc) \<noteq> [] \<Longrightarrow> outline (get_outline nd doc) = native_outline (toc doc)"
  by (auto simp: get_outline_def Let_def native_outline_def)

lemma get_outline_heuristic:
  "native_outline (toc doc) = [] \<Longrightarrow>
   outline (get_outline nd doc) = heuristic_outline nd (extract_title doc) (get_text_blocks doc)"
  by (simp add: get_outline_def Let_def)

lemma sections_loop_skip:
  "\<forall>i \<in> set idx. section_at doc ol i = Inr None \<Longrightarrow> sections_loop doc ol acc idx = Inr acc"
  by (induction idx arbitrary: acc) auto

lemma section_at_no_bbox: "h_bbox (ol ! i) = None \<Longrightarrow> section_at doc ol i = Inr None"
  by (simp add: section_at_def Let_def)

lemma sections_of_no_bbox:
  assumes "list_all (\<lambda>h. h_bbox h = None) ol"
  shows "sections_of doc ol = Inr []"
proof -
  have "\<forall>i \<in> set [0 ..< length ol]. section_at doc ol i = Inr None"
    using assms by (auto simp: list_all_length section_at_no_bbox)
  then show ?thesis unfolding sections_of_def by (rule sections_loop_skip)
qed

section \<open>Properties of the filter and of the title\<close>








section \<open>Properties of the section regions\<close>

lemma page_clip_in_range:
  "0 \<le> pn \<Longrightarrow> pn < int (length (pages doc)) \<Longrightarrow>
   page_clip doc st en pn = Inr (clip_on_page doc st en pn)"
  by (simp add: page_clip_def get_page_def clip_on_page_def Let_def)

lemma clip_pages_in_range:
  "\<forall>pn \<in> set pns. 0 \<le> pn \<and> pn < int (length (pages doc)) \<Longrightarrow>
   clip_pages doc st en acc pns = Inr (acc @ concat (map (clip_on_page doc st en) pns))"
  by (induction pns arbitrary: acc) (simp_all add: page_clip_in_range)

lemma doc_end_document_end:
  "pages doc \<noteq> [] \<Longrightarrow> doc_end doc = Inr (document_end doc)"
proof -
  assume a: "pages doc \<noteq> []"
  then have "nat (int (length (pages doc)) - 1) = length (pages doc) - 1" by simp
  with a show ?thesis
    by (simp add: doc_end_def document_end_def get_page_def Let_def last_conv_nth)
qed

lemma section_end_region_end:
  assumes "list_all (located doc) ol" "i < length ol"
  shows "section_end doc ol i = Inr (region_end doc ol i)"
proof (cases "i + 1 < length ol")
  case True
  with assms(1) have "located doc (ol ! (i + 1))" by (simp add: list_all_length)
  then obtain nb where "h_bbox (ol ! (i + 1)) = Some nb" by (auto simp: located_def)
  with True show ?thesis
    by (simp add: section_end_def region_end_def heading_top_def)
next
  case False
  from assms have "located doc (ol ! i)" by (simp add: list_all_length)
  then have "pages doc \<noteq> []" by (auto simp: located_def)
  with False show ?thesis
    by (simp add: section_end_def region_end_def doc_end_document_end)
qed

lemma region_end_page:
  assumes "list_all (located doc) ol" "i < length ol"
  shows "fst (region_end doc ol i) < int (length (pages doc))"
proof (cases "i + 1 < length ol")
  case True
  with assms(1) have "located doc (ol ! (i + 1))" by (simp add: list_all_length)
  with True show ?thesis by (simp add: region_end_def heading_top_def located_def)
next
  case False
  then show ?thesis by (simp add: region_end_def document_end_def)
qed

lemma section_at_expected:
  assumes "list_all (located doc) ol" "i < length ol"
  shows "section_at doc ol i = Inr (Some (expected_section doc ol i))"
proof -
  from assms have loc: "located doc (ol ! i)" by (simp add: list_all_length)
  then obtain b where b: "h_bbox (ol ! i) = Some b" by (auto simp: located_def)
  then have st: "section_start (ol ! i) b = heading_bottom (ol ! i)"
    by (simp add: section_start_def heading_bottom_def)
  have en: "section_end doc ol i = Inr (region_end doc ol i)"
    using assms by (rule section_end_region_end)
  have "\<forall>pn \<in> set [fst (heading_bottom (ol ! i)) .. fst (region_end doc ol i)].
          0 \<le> pn \<and> pn < int (length (pages doc))"
    using loc region_end_page [OF assms] by (auto simp: heading_bottom_def located_def)
  then have "clip_pages doc (heading_bottom (ol ! i)) (region_end doc ol i) []
               [fst (heading_bottom (ol ! i)) .. fst (region_end doc ol i)] =
             Inr (region_text doc (heading_bottom (ol ! i)) (region_end doc ol i))"
    by (simp add: clip_pages_in_range region_text_def)
  with b st en show ?thesis
    by (simp add: section_at_def Let_def expected_section_def)
qed

lemma sections_loop_expected:
  "\<forall>i \<in> set idx. section_at doc ol i = Inr (Some (f i)) \<Longrightarrow>
   sections_loop doc ol acc idx = Inr (acc @ map f idx)"
  by (induction idx arbitrary: acc) simp_all

lemma sections_of_expected:
  assumes "list_all (located doc) ol"
  shows "sections_of doc ol = Inr (map (expected_section doc ol) [0 ..< length ol])"
proof -
  have "\<forall>i \<in> set [0 ..< length ol]. section_at doc ol i = Inr (Some (expected_section doc ol i))"
    using assms by (simp add: section_at_expected)
  from sections_loop_expected [OF this, of "[]"] show ?thesis by (simp add: sections_of_def)
qed

lemma make_block_fields:
  "make_block pn rb = Some c \<Longrightarrow> page_num c = pn \<and> bbox c = block_bbox rb"
  by (auto simp: make_block_def Let_def split: if_splits option.splits)

lemma get_text_blocks_pages:
  assumes "c \<in> set (get_text_blocks doc)"
  shows "1 \<le> page_num c \<and> page_num c \<le> int (length (pages doc))"
proof -
  from assms obtain i p rb where ip: "(i, p) \<in> set (enumerate 0 (pages doc))"
    and mk: "make_block (int i + 1) rb = Some c"
    by (auto simp: get_text_blocks_def List.map_filter_def)
  from ip have "i < length (pages doc)" by (simp add: in_set_enumerate_eq)
  with make_block_fields [OF mk] show ?thesis by simp
qed

lemma outline_entry_fields:
  "outline_entry nd ttl s2l c = Some h \<Longrightarrow> h_bbox h = Some (bbox c) \<and> h_page_num h = page_num c"
  by (auto simp: outline_entry_def Let_def split: option.splits if_splits)

lemma heuristic_outline_located:
  "list_all (located doc) (heuristic_outline nd ttl (get_text_blocks doc))"
proof -
  have "located doc h" if "h \<in> set (heuristic_outline nd ttl (get_text_blocks doc))" for h
  proof -
    from heuristic_outline_source [OF that] obtain body c where
      c: "c \<in> set (heading_blocks nd body (get_text_blocks doc))"
      and e: "outline_entry nd ttl (style_to_level (heading_blocks nd body (get_text_blocks doc))) c = Some h"
      by blast
    from c have "c \<in> set (get_text_blocks doc)" by (simp add: heading_blocks_def)
    from get_text_blocks_pages [OF this] outline_entry_fields [OF e]
    show ?thesis by (simp add: located_def)
  qed
  then show ?thesis by (simp add: list_all_iff)
qed

lemma get_sections_heuristic:
  assumes "native_outline (toc doc) = []"
  shows "get_sections nd doc =
           Inr (map (expected_section doc (outline (get_outline nd doc)))
                  [0 ..< length (outline (get_outline nd doc))])"
proof -
  have "list_all (located doc) (outline (get_outline nd doc))"
    by (simp add: get_outline_heuristic [OF assms] heuristic_outline_located)
  then show ?thesis by (simp add: get_sections_def sections_of_expected)
qed

lemma region_text_one_page:
  "fst st = fst en \<Longrightarrow> region_text doc st en = clip_on_page doc st en (fst st)"
  by (simp add: region_text_def)


section \<open>Properties of the numbering pattern\<close>

lemma join_periods: "join [46] (d # gs) = d @ concat (map (\<lambda>g. 46 # g) gs)"
  by (induction gs arbitrary: d) simp_all

lemma takeWhile_run:
  "list_all nd g \<Longrightarrow> \<not> nd x \<Longrightarrow> takeWhile nd (g @ x # t) = g \<and> dropWhile nd (g @ x # t) = x # t"
  by (induction g) simp_all

lemma groups_head:
  "\<not> nd 46 \<Longrightarrow> \<not> nd w \<Longrightarrow>
   \<exists>x t. concat (map (\<lambda>g. 46 # g) gs) @ w # rest = x # t \<and> \<not> nd x"
  by (cases gs) simp_all

lemma number_groups_forward:
  assumes "\<not> nd 46" "\<not> nd w" "w \<noteq> 46"
  shows "list_all (digit_run nd) gs \<Longrightarrow>
         number_groups nd acc (concat (map (\<lambda>g. 46 # g) gs) @ w # rest) =
           (acc @ concat (map (\<lambda>g. 46 # g) gs), w # rest)"
proof (induction gs arbitrary: acc)
  case Nil
  from assms(3) show ?case by (simp add: number_groups.simps)
next
  case (Cons g gs)
  from Cons.prems have "digit_run nd g" and gs: "list_all (digit_run nd) gs" by simp_all
  then have g: "g \<noteq> []" "list_all nd g" by (simp_all add: digit_run_def)
  from groups_head [OF assms(1,2), of gs rest] obtain x t where
    xt: "concat (map (\<lambda>g. 46 # g) gs) @ w # rest = x # t" "\<not> nd x" by blast
  from takeWhile_run [OF g(2) xt(2), of t] xt(1)
  have tw: "takeWhile nd (g @ concat (map (\<lambda>g. 46 # g) gs) @ w # rest) = g"
    and dw: "dropWhile nd (g @ concat (map (\<lambda>g. 46 # g) gs) @ w # rest) =
             concat (map (\<lambda>g. 46 # g) gs) @ w # rest"
    by simp_all
  have "number_groups nd acc (concat (map (\<lambda>g. 46 # g) (g # gs)) @ w # rest) =
        number_groups nd (acc @ 46 # g) (concat (map (\<lambda>g. 46 # g) gs) @ w # rest)"
    using g(1) tw dw by (subst number_groups.simps) simp
  with Cons.IH [OF gs, of "acc @ 46 # g"] show ?case by simp
qed

lemma list_item_pattern_forward:
  assumes "digits_apart nd" "numbering nd gs" "py_isspace w"
    and "dropWhile py_isspace t = join [46] gs @ w # rest"
  shows "list_item_pattern nd t = Some (join [46] gs)"
proof -
  from assms(2) obtain d gs' where gs: "gs = d # gs'" "d \<noteq> []" "list_all nd d"
    "list_all (digit_run nd) gs'"
    by (cases gs) (auto simp: numbering_def digit_run_def)
  from assms(1,3) have nd: "\<not> nd 46" "\<not> nd w" "w \<noteq> 46"
    by (auto simp: digits_apart_def py_isspace_def)
  let ?tail = "concat (map (\<lambda>g. 46 # g) gs') @ w # rest"
  from groups_head [OF nd(1,2), of gs' rest] obtain x u where
    xu: "?tail = x # u" "\<not> nd x" by blast
  have t: "dropWhile py_isspace t = d @ ?tail"
    using assms(4) by (simp add: gs(1) join_periods)
  from takeWhile_run [OF gs(3) xu(2), of u] xu(1)
  have "takeWhile nd (d @ ?tail) = d" "dropWhile nd (d @ ?tail) = ?tail" by simp_all
  with gs(2) number_groups_forward [OF nd gs(4), of d rest] assms(3) show ?thesis
    by (simp add: list_item_pattern_def t starts_space_def gs(1) join_periods)
qed

lemma number_groups_backward:
  "number_groups nd acc s = (g, r) \<Longrightarrow>
   \<exists>gs. list_all (digit_run nd) gs \<and> g = acc @ concat (map (\<lambda>x. 46 # x) gs) \<and>
        s = concat (map (\<lambda>x. 46 # x) gs) @ r"
proof (induction nd acc s arbitrary: g r rule: number_groups.induct)
  case (1 nd acc s)
  show ?case
  proof (cases s)
    case Nil
    with "1.prems" have "g = acc" "r = s" by (simp_all add: number_groups.simps)
    then show ?thesis by (intro exI [of _ "[]"]) simp
  next
    case (Cons c t)
    show ?thesis
    proof (cases "c = 46 \<and> takeWhile nd t \<noteq> []")
      case False
      from "1.prems" Cons have "number_groups nd acc (c # t) = (g, r)" by simp
      with False Cons have "g = acc" "r = s"
        by (auto simp: number_groups.simps [of nd acc "c # t"])
      then show ?thesis by (intro exI [of _ "[]"]) simp
    next
      case True
      from "1.prems" Cons have "number_groups nd acc (c # t) = (g, r)" by simp
      moreover have "number_groups nd acc (c # t) =
          number_groups nd (acc @ c # takeWhile nd t) (dropWhile nd t)"
        using True by (subst number_groups.simps) simp
      ultimately have
        "number_groups nd (acc @ c # takeWhile nd t) (dropWhile nd t) = (g, r)"
        by (simp only:)
      from "1.IH" [OF Cons True this] obtain gs where
        gs: "list_all (digit_run nd) gs"
            "g = (acc @ c # takeWhile nd t) @ concat (map (\<lambda>x. 46 # x) gs)"
            "dropWhile nd t = concat (map (\<lambda>x. 46 # x) gs) @ r"
        by blast
      have run: "digit_run nd (takeWhile nd t)"
        using True by (auto simp: digit_run_def list_all_iff dest: set_takeWhileD)
      have "t = takeWhile nd t @ dropWhile nd t" by simp
      with gs(3) have "t = takeWhile nd t @ concat (map (\<lambda>x. 46 # x) gs) @ r" by simp
      with gs(1,2) run True Cons show ?thesis
        by (intro exI [of _ "takeWhile nd t # gs"]) simp
    qed
  qed
qed

lemma list_item_pattern_backward:
  assumes "list_item_pattern nd t = Some g"
  shows "\<exists>gs w rest. numbering nd gs \<and> g = join [46] gs \<and> py_isspace w \<and>
           dropWhile py_isspace t = g @ w # rest"
proof -
  let ?u = "dropWhile py_isspace t"
  let ?d = "takeWhile nd ?u"
  from assms have d: "?d \<noteq> []"
    by (auto simp: list_item_pattern_def Let_def split: if_splits)
  obtain g' r where ng: "number_groups nd ?d (dropWhile nd ?u) = (g', r)"
    by (cases "number_groups nd ?d (dropWhile nd ?u)")
  with assms d have g: "g' = g" and sp: "starts_space r"
    by (auto simp: list_item_pattern_def Let_def split: if_splits)
  from sp obtain w rest where r: "r = w # rest" "py_isspace w"
    by (cases r) (auto simp: starts_space_def)
  from number_groups_backward [OF ng] obtain gs where
    gs: "list_all (digit_run nd) gs" "g' = ?d @ concat (map (\<lambda>x. 46 # x) gs)"
        "dropWhile nd ?u = concat (map (\<lambda>x. 46 # x) gs) @ r"
    by blast
  have run: "digit_run nd ?d"
    using d by (auto simp: digit_run_def list_all_iff dest: set_takeWhileD)
  have "?u = ?d @ dropWhile nd ?u" by simp
  with gs(3) have u: "?u = ?d @ concat (map (\<lambda>x. 46 # x) gs) @ r" by simp
  have "numbering nd (?d # gs)" using run gs(1) by (simp add: numbering_def)
  moreover have "g = join [46] (?d # gs)" using g gs(2) by (simp add: join_periods)
  moreover have "?u = g @ w # rest"
  proof -
    from u r(1) have "?u = (?d @ concat (map (\<lambda>x. 46 # x) gs)) @ w # rest"
      by (simp only: append_assoc)
    moreover from g gs(2) have "?d @ concat (map (\<lambda>x. 46 # x) gs) = g" by simp
    ultimately show ?thesis by (simp only:)
  qed
  ultimately show ?thesis using r(2) by blast
qed

lemma count_dots_numbering:
  assumes "\<not> nd 46" "numbering nd gs"
  shows "count_dots (join [46] gs) + 1 = length gs"
proof -
  have run: "filter (\<lambda>c. c = 46) g = []" if "list_all nd g" for g
    using that assms(1) by (auto simp: filter_empty_conv list_all_iff)
  have tail: "list_all (digit_run nd) xs \<Longrightarrow>
      length (filter (\<lambda>c. c = 46) (concat (map (\<lambda>g. 46 # g) xs))) = length xs" for xs
    by (induction xs) (simp_all add: digit_run_def run)
  from assms(2) obtain d gs' where "gs = d # gs'" "list_all nd d" "list_all (digit_run nd) gs'"
    by (cases gs) (auto simp: numbering_def digit_run_def)
  then show ?thesis by (simp add: count_dots_def join_periods run tail)
qed

section \<open>Evaluation of the example inputs\<close>

lemmas text_eval = ustr_def strip_def py_isspace_def has_alpha_def ascii_alpha_def split_def

lemmas block_eval = get_text_blocks_def one_span_block_def paragraph_block_def make_block_def
  List.map_filter_def enumerate_eq_zip max_key_def counter_def

lemmas filter_eval = heading_blocks_def is_heading_block_def is_candidate_def
  ends_sentence_def list_item_marker_def bullet_class_def alnum_class_def ascii_digit_def
  starts_space_def

lemmas body_eval = find_body_style_def style_word_counts_def substantial_def max_key_def

lemmas entry_eval = outline_entry_def list_item_pattern_def number_groups.simps ascii_digit_def
  starts_space_def count_dots_def

lemma scenario_text_blocks: "get_text_blocks scenario_doc = scenario_blocks"
  by (simp add: scenario_doc_def scenario_pages_def scenario_blocks_def block_eval text_eval)

lemma scenario_body_style: "find_body_style scenario_blocks = Some (12, False)"
  by (simp add: body_eval scenario_blocks_def)

lemma scenario_heading_blocks:
  "heading_blocks ascii_digit (12, False) scenario_blocks =
     [scenario_blocks ! 0, scenario_blocks ! 2]"
  by (simp add: scenario_blocks_def filter_eval text_eval)

lemma scenario_title: "extract_title scenario_doc = ustr ''Sample Report''"
  by (simp add: extract_title_def scenario_doc_def metadata_accepts_def filename_like_def
      extensions_def ends_with_ext_def ci_char_def text_eval)

lemma scenario_levels:
  "style_to_level [scenario_blocks ! 0, scenario_blocks ! 2] (18, True) = Some (H 1)"
  "style_to_level [scenario_blocks ! 0, scenario_blocks ! 2] (14, True) = Some (H 2)"
  by (simp_all add: style_to_level_rank size_rank_def scenario_blocks_def)

lemma scenario_entries:
  "outline_entry ascii_digit (ustr ''Sample Report'')
     (style_to_level [scenario_blocks ! 0, scenario_blocks ! 2]) (scenario_blocks ! 0) =
     Some (scenario_outline ! 0)"
  "outline_entry ascii_digit (ustr ''Sample Report'')
     (style_to_level [scenario_blocks ! 0, scenario_blocks ! 2]) (scenario_blocks ! 2) =
     Some (scenario_outline ! 1)"
  using scenario_levels
  by (simp_all add: scenario_blocks_def scenario_outline_def entry_eval text_eval)

lemma scenario_heuristic:
  "heuristic_outline ascii_digit (ustr ''Sample Report'') scenario_blocks = scenario_outline"
proof -
  have "List.map_filter (outline_entry ascii_digit (ustr ''Sample Report'')
          (style_to_level [scenario_blocks ! 0, scenario_blocks ! 2]))
          [scenario_blocks ! 0, scenario_blocks ! 2] = scenario_outline"
    by (simp add: List.map_filter_def scenario_entries) (simp add: scenario_outline_def)
  moreover have "sort_key outline_key scenario_outline = scenario_outline"
    by (simp add: scenario_outline_def outline_key_def bbox_1_def)
  moreover have "scenario_blocks \<noteq> []" by (simp add: scenario_blocks_def)
  ultimately show ?thesis
    by (simp add: heuristic_outline_def scenario_body_style scenario_heading_blocks)
qed

lemma scenario_get_outline: "outline (get_outline ascii_digit scenario_doc) = scenario_outline"
proof -
  have "toc scenario_doc = []" by (simp add: scenario_doc_def)
  then show ?thesis
    by (simp add: get_outline_def Let_def scenario_title scenario_text_blocks scenario_heuristic)
qed

lemma sample_title [simp]:
  "metadata_accepts (ustr ''Sample Report'')" "strip (ustr ''Sample Report'') = ustr ''Sample Report''"
  by (simp_all add: metadata_accepts_def filename_like_def extensions_def ends_with_ext_def
      ci_char_def text_eval)

lemma five_sizes_title: "extract_title five_sizes_doc = ustr ''Sample Report''"
  by (simp add: extract_title_def five_sizes_doc_def)

lemma five_sizes_get_text_blocks: "get_text_blocks five_sizes_doc = five_sizes_text_blocks"
  by (simp add: five_sizes_doc_def five_sizes_text_blocks_def five_sizes_blocks_def block_eval text_eval)

lemma five_sizes_body_style: "find_body_style five_sizes_text_blocks = Some (12, False)"
  by (simp add: body_eval five_sizes_text_blocks_def five_sizes_blocks_def)

lemma five_sizes_heading_blocks:
  "heading_blocks ascii_digit (12, False) five_sizes_text_blocks = five_sizes_blocks"
  by (simp add: five_sizes_text_blocks_def five_sizes_blocks_def filter_eval text_eval)

lemma five_sizes_levels:
  "style_to_level five_sizes_blocks (24, True) = Some (H 1)"
  "style_to_level five_sizes_blocks (20, True) = Some (H 2)"
  "style_to_level five_sizes_blocks (18, False) = Some (H 3)"
  "style_to_level five_sizes_blocks (16, True) = Some (H 4)"
  "style_to_level five_sizes_blocks (14, True) = None"
  by (simp_all add: style_to_level_rank size_rank_def five_sizes_blocks_def)

lemma map_filter_via_map: "List.map_filter f xs = List.map_filter (\<lambda>y. y) (map f xs)"
  by (induction xs) (simp_all add: List.map_filter_simps split: option.split)

lemma five_sizes_entries:
  "List.map_filter (outline_entry ascii_digit (ustr ''Sample Report'')
      (style_to_level five_sizes_blocks)) five_sizes_blocks = five_sizes_outline"
proof -
  have "map (outline_entry ascii_digit (ustr ''Sample Report'') (style_to_level five_sizes_blocks))
          five_sizes_blocks =
        [Some (five_sizes_outline ! 0), Some (five_sizes_outline ! 1),
         Some (five_sizes_outline ! 2), Some (five_sizes_outline ! 3), None]"
    using five_sizes_levels
    by (simp add: five_sizes_blocks_def five_sizes_outline_def entry_eval text_eval)
  then have "List.map_filter (outline_entry ascii_digit (ustr ''Sample Report'')
      (style_to_level five_sizes_blocks)) five_sizes_blocks =
        [five_sizes_outline ! 0, five_sizes_outline ! 1, five_sizes_outline ! 2,
         five_sizes_outline ! 3]"
    by (simp add: map_filter_via_map [of "outline_entry _ _ _"] List.map_filter_simps)
  then show ?thesis by (simp add: five_sizes_outline_def)
qed

lemma five_sizes_heuristic:
  "heuristic_outline ascii_digit (ustr ''Sample Report'') five_sizes_text_blocks = five_sizes_outline"
proof -
  have "sort_key outline_key five_sizes_outline = five_sizes_outline"
    by (simp add: five_sizes_outline_def outline_key_def bbox_1_def)
  moreover have "five_sizes_text_blocks \<noteq> []" "five_sizes_blocks \<noteq> []"
    by (simp_all add: five_sizes_text_blocks_def five_sizes_blocks_def)
  ultimately show ?thesis
    by (simp add: heuristic_outline_def five_sizes_body_style five_sizes_heading_blocks
        five_sizes_entries)
qed

lemma five_sizes_get_outline:
  "outline (get_outline ascii_digit five_sizes_doc) = five_sizes_outline"
proof -
  have "toc five_sizes_doc = []" by (simp add: five_sizes_doc_def)
  then show ?thesis
    by (simp add: get_outline_def Let_def five_sizes_title five_sizes_get_text_blocks
        five_sizes_heuristic)
qed

lemma numbered_title: "extract_title numbered_doc = ustr ''Sample Report''"
  by (simp add: extract_title_def numbered_doc_def)

lemma numbered_get_text_blocks: "get_text_blocks numbered_doc = numbered_blocks"
  by (simp add: numbered_doc_def numbered_blocks_def block_eval text_eval)

lemma numbered_body_style: "find_body_style numbered_blocks = Some (12, False)"
  by (simp add: body_eval numbered_blocks_def)

lemma numbered_heading_blocks:
  "heading_blocks ascii_digit (12, False) numbered_blocks = [numbered_blocks ! 0]"
  by (simp add: numbered_blocks_def filter_eval text_eval)

lemma numbered_level: "style_to_level [numbered_blocks ! 0] (14, True) = Some (H 1)"
  by (simp add: style_to_level_rank size_rank_def numbered_blocks_def)

lemma numbered_pattern:
  "list_item_pattern ascii_digit (ustr ''1.2.3.4.5 Tolerances'') = Some (ustr ''1.2.3.4.5'')"
  by (simp add: list_item_pattern_def number_groups.simps ascii_digit_def starts_space_def text_eval)

lemma numbered_heuristic:
  "heuristic_outline ascii_digit (ustr ''Sample Report'') numbered_blocks = numbered_outline"
proof -
  have "outline_entry ascii_digit (ustr ''Sample Report'') (style_to_level [numbered_blocks ! 0])
          (numbered_blocks ! 0) = Some (numbered_outline ! 0)"
    using numbered_level
    by (simp add: numbered_blocks_def numbered_outline_def entry_eval text_eval)
  then have "List.map_filter (outline_entry ascii_digit (ustr ''Sample Report'')
          (style_to_level [numbered_blocks ! 0])) [numbered_blocks ! 0] = numbered_outline"
    by (simp add: List.map_filter_def) (simp add: numbered_outline_def)
  moreover have "numbered_blocks \<noteq> []" by (simp add: numbered_blocks_def)
  ultimately show ?thesis
    by (simp add: heuristic_outline_def numbered_body_style numbered_heading_blocks)
       (simp add: numbered_outline_def)
qed

lemma setup_pattern_ascii:
  "list_item_pattern ascii_digit (ustr ''3.2.1 Setup'') = Some (ustr ''3.2.1'')"
  by (rule setup_pattern) (simp_all add: ascii_digit_def)

lemma toc_update_blocks [simp]: "get_text_blocks (doc\<lparr>toc := t\<rparr>) = get_text_blocks doc"
  by (simp add: get_text_blocks_def)

lemma toc_update_title [simp]: "extract_title (doc\<lparr>toc := t\<rparr>) = extract_title doc"
  by (simp add: extract_title_def Let_def)

lemma letterless_toc_native: "native_outline (toc letterless_toc_doc) = []"
  by (simp add: letterless_toc_doc_def native_outline_def text_eval)

lemma letterless_toc_get_outline: "outline (get_outline ascii_digit letterless_toc_doc) = scenario_outline"
  by (simp add: get_outline_heuristic [OF letterless_toc_native])
     (simp add: letterless_toc_doc_def scenario_title scenario_text_blocks scenario_heuristic)

lemma native_doc_native: "native_outline (toc native_doc) = native_doc_outline"
  by (simp add: native_doc_def native_outline_def native_doc_outline_def text_eval)

lemma native_doc_get_outline: "outline (get_outline ascii_digit native_doc) = native_doc_outline"
proof -
  have "native_outline (toc native_doc) \<noteq> []"
    by (simp add: native_doc_native native_doc_outline_def)
  then show ?thesis by (simp add: get_outline_native native_doc_native)
qed

lemma scenario_pages_nth:
  "get_page scenario_doc 0 = Inr (scenario_pages ! 0)" "length (pages scenario_doc) = 1"
  by (simp_all add: get_page_def scenario_doc_def scenario_pages_def)

lemma scenario_section_0:
  "section_at scenario_doc scenario_outline 0 = Inr (Some (scenario_sections ! 0))"
  by (simp add: section_at_def section_end_def section_start_def scenario_outline_def
      bbox_1_def bbox_3_def page_clip_def scenario_pages_nth)
     (simp add: scenario_pages_def scenario_sections_def clean_def text_eval)

lemma scenario_section_1:
  "section_at scenario_doc scenario_outline (Suc 0) = Inr (Some (scenario_sections ! 1))"
  by (simp add: section_at_def section_end_def section_start_def scenario_outline_def
      bbox_1_def bbox_3_def page_clip_def doc_end_def scenario_pages_nth)
     (simp add: scenario_pages_def scenario_sections_def clean_def text_eval)

lemma scenario_get_sections: "get_sections ascii_digit scenario_doc = Inr scenario_sections"
proof -
  have "[0 ..< length scenario_outline] = [0, 1]"
    by (simp add: scenario_outline_def upt_rec)
  then show ?thesis
    by (simp add: get_sections_def sections_of_def scenario_get_outline scenario_section_0
        scenario_section_1)
       (simp add: scenario_sections_def)
qed










section \<open>Claims about the level assignment\<close>

text \<open>
  C1. The level of a style depends on its font size alone: a style of a heading block
  whose size has rank \<open>r\<close> among the distinct sizes of the heading blocks, counted from
  the largest, has level \<open>H (r + 1)\<close> when \<open>r < 4\<close> and no level otherwise, whatever its
  bold flag; a larger size has a smaller rank; a block whose style has no level makes no
  outline entry, and every entry of the heuristic outline comes from a heading block whose
  style has a level.
\<close>

theorem style_to_level_by_size:
  "style_to_level hb st =
     (if st \<in> style ` set hb \<and> size_rank (fst st) hb < 4
      then Some (H (int (size_rank (fst st) hb) + 1)) else None) \<and>
   (b \<in> set hb \<and> b' \<in> set hb \<and> fst (style b') < fst (style b) \<longrightarrow>
      size_rank (fst (style b)) hb < size_rank (fst (style b')) hb) \<and>
   (style_to_level hb (style b) = None \<longrightarrow> outline_entry nd ttl (style_to_level hb) b = None) \<and>
   (h \<in> set (heuristic_outline nd ttl bs) \<longrightarrow>
      (\<exists>body c. find_body_style bs = Some body \<and> c \<in> set (heading_blocks nd body bs) \<and>
         style_to_level (heading_blocks nd body bs) (style c) \<noteq> None \<and>
         outline_entry nd ttl (style_to_level (heading_blocks nd body bs)) c = Some h))"
proof (intro conjI impI)
  show "style_to_level hb st =
     (if st \<in> style ` set hb \<and> size_rank (fst st) hb < 4
      then Some (H (int (size_rank (fst st) hb) + 1)) else None)"
    by (rule style_to_level_rank)
next
  assume "b \<in> set hb \<and> b' \<in> set hb \<and> fst (style b') < fst (style b)"
  then show "size_rank (fst (style b)) hb < size_rank (fst (style b')) hb"
    by (simp add: size_rank_less)
next
  assume "style_to_level hb (style b) = None"
  then show "outline_entry nd ttl (style_to_level hb) b = None"
    by (simp add: outline_entry_def)
next
  assume "h \<in> set (heuristic_outline nd ttl bs)"
  from heuristic_outline_source [OF this] obtain body c where
    c: "find_body_style bs = Some body" "c \<in> set (heading_blocks nd body bs)"
       "outline_entry nd ttl (style_to_level (heading_blocks nd body bs)) c = Some h"
    by blast
  from outline_entry_level [OF c(3)] c
  show "\<exists>body c. find_body_style bs = Some body \<and> c \<in> set (heading_blocks nd body bs) \<and>
         style_to_level (heading_blocks nd body bs) (style c) \<noteq> None \<and>
         outline_entry nd ttl (style_to_level (heading_blocks nd body bs)) c = Some h"
    by blast
qed

theorem style_to_level_by_size_witness:
  "style_to_level five_sizes_blocks (14, True) = None \<and>
   style_to_level five_sizes_blocks (18, False) = Some (H 3) \<and>
   five_sizes_blocks ! 0 \<in> set five_sizes_blocks \<and>
   five_sizes_blocks ! 4 \<in> set five_sizes_blocks \<and>
   fst (style (five_sizes_blocks ! 4)) < fst (style (five_sizes_blocks ! 0)) \<and>
   size_rank (fst (style (five_sizes_blocks ! 0))) five_sizes_blocks <
     size_rank (fst (style (five_sizes_blocks ! 4))) five_sizes_blocks \<and>
   style_to_level five_sizes_blocks (style (five_sizes_blocks ! 4)) = None \<and>
   outline_entry ascii_digit (ustr ''Sample Report'') (style_to_level five_sizes_blocks)
     (five_sizes_blocks ! 4) = None \<and>
   scenario_outline ! 1 \<in> set (heuristic_outline ascii_digit (ustr ''Sample Report'') scenario_blocks) \<and>
   (\<exists>body c. find_body_style scenario_blocks = Some body \<and>
      c \<in> set (heading_blocks ascii_digit body scenario_blocks) \<and>
      style_to_level (heading_blocks ascii_digit body scenario_blocks) (style c) \<noteq> None \<and>
      outline_entry ascii_digit (ustr ''Sample Report'')
        (style_to_level (heading_blocks ascii_digit body scenario_blocks)) c =
        Some (scenario_outline ! 1))"
proof -
  have r: "size_rank 14 five_sizes_blocks = 4" "size_rank 18 five_sizes_blocks = 2"
    by (simp_all add: size_rank_def five_sizes_blocks_def)
  have m: "(14, True) \<in> style ` set five_sizes_blocks" "(18, False) \<in> style ` set five_sizes_blocks"
    by (simp_all add: five_sizes_blocks_def)
  have a: "five_sizes_blocks ! 0 \<in> set five_sizes_blocks \<and>
           five_sizes_blocks ! 4 \<in> set five_sizes_blocks \<and>
           fst (style (five_sizes_blocks ! 4)) < fst (style (five_sizes_blocks ! 0))"
    by (simp add: five_sizes_blocks_def)
  have s: "style (five_sizes_blocks ! 4) = (14, True)"
    by (simp add: five_sizes_blocks_def)
  have h: "scenario_outline ! 1 \<in>
           set (heuristic_outline ascii_digit (ustr ''Sample Report'') scenario_blocks)"
    by (simp add: scenario_heuristic) (simp add: scenario_outline_def)
  note t1 = style_to_level_by_size [of five_sizes_blocks "(14, True)" "five_sizes_blocks ! 0"
      "five_sizes_blocks ! 4" ascii_digit "ustr ''Sample Report''"
      "scenario_outline ! 1" scenario_blocks]
  note t2 = style_to_level_by_size [of five_sizes_blocks "(18, False)" "five_sizes_blocks ! 4"
      "five_sizes_blocks ! 4" ascii_digit "ustr ''Sample Report''"
      "scenario_outline ! 1" scenario_blocks]
  from t1 r m have l1: "style_to_level five_sizes_blocks (14, True) = None" by simp
  from t2 r m have l2: "style_to_level five_sizes_blocks (18, False) = Some (H 3)" by simp
  from t1 a have l3: "size_rank (fst (style (five_sizes_blocks ! 0))) five_sizes_blocks <
     size_rank (fst (style (five_sizes_blocks ! 4))) five_sizes_blocks" by blast
  from t2 l1 s have l4: "outline_entry ascii_digit (ustr ''Sample Report'')
     (style_to_level five_sizes_blocks) (five_sizes_blocks ! 4) = None" by simp
  from t1 h have l5: "\<exists>body c. find_body_style scenario_blocks = Some body \<and>
      c \<in> set (heading_blocks ascii_digit body scenario_blocks) \<and>
      style_to_level (heading_blocks ascii_digit body scenario_blocks) (style c) \<noteq> None \<and>
      outline_entry ascii_digit (ustr ''Sample Report'')
        (style_to_level (heading_blocks ascii_digit body scenario_blocks)) c =
        Some (scenario_outline ! 1)" by blast
  from a l1 l2 l3 l4 l5 s h show ?thesis by simp
qed

section \<open>Claims about the body style\<close>

text \<open>
  C5. Body-style inference returns a style of a substantial block (more than 2 lines or
  more than 20 words) whose total word count over the substantial blocks is highest; when
  no block is substantial it returns a style that occurs in the most blocks; it reports
  \<open>None\<close> exactly when there are no blocks, and then the heuristic outline, and the
  outline that \<open>get_outline\<close> returns without a native outline, is empty.
\<close>

theorem body_style_inference:
  "((\<exists>b \<in> set bs. substantial b) \<longrightarrow>
      (\<exists>st. find_body_style bs = Some st \<and> (\<exists>b \<in> set bs. substantial b \<and> style b = st) \<and>
            (\<forall>st'. word_total st' bs \<le> word_total st bs))) \<and>
   (bs \<noteq> [] \<and> (\<forall>b \<in> set bs. \<not> substantial b) \<longrightarrow>
      (\<exists>st. find_body_style bs = Some st \<and> st \<in> style ` set bs \<and>
            (\<forall>st'. block_count st' bs \<le> block_count st bs))) \<and>
   (find_body_style bs = None \<longleftrightarrow> bs = []) \<and>
   (find_body_style bs = None \<longrightarrow> heuristic_outline nd ttl bs = []) \<and>
   (native_outline (toc doc) = [] \<and> find_body_style (get_text_blocks doc) = None \<longrightarrow>
      outline (get_outline nd doc) = [])"
  using find_body_style_substantial [of bs] find_body_style_fallback [of bs]
    find_body_style_None [of bs] find_body_style_None [of "get_text_blocks doc"]
  by (auto simp: heuristic_outline_def get_outline_def)

theorem body_style_inference_witness:
  "(\<exists>b \<in> set scenario_blocks. substantial b) \<and>
   (\<exists>st. find_body_style scenario_blocks = Some st \<and>
      (\<exists>b \<in> set scenario_blocks. substantial b \<and> style b = st) \<and>
      (\<forall>st'. word_total st' scenario_blocks \<le> word_total st scenario_blocks)) \<and>
   five_sizes_blocks \<noteq> [] \<and> filter substantial five_sizes_blocks = [] \<and>
   (\<exists>st. find_body_style five_sizes_blocks = Some st \<and> st \<in> style ` set five_sizes_blocks \<and>
      (\<forall>st'. block_count st' five_sizes_blocks \<le> block_count st five_sizes_blocks)) \<and>
   find_body_style (get_text_blocks empty_doc) = None \<and>
   heuristic_outline ascii_digit [] (get_text_blocks empty_doc) = [] \<and>
   native_outline (toc empty_doc) = [] \<and>
   outline (get_outline ascii_digit empty_doc) = []"
proof -
  have a: "\<exists>b \<in> set scenario_blocks. substantial b"
    by (simp add: scenario_blocks_def substantial_def)
  have b: "five_sizes_blocks \<noteq> [] \<and> (\<forall>b \<in> set five_sizes_blocks. \<not> substantial b)"
    by (simp add: five_sizes_blocks_def substantial_def)
  have e: "get_text_blocks empty_doc = []" "native_outline (toc empty_doc) = []"
    by (simp_all add: get_text_blocks_def empty_doc_def native_outline_def)
  note t1 = body_style_inference [of scenario_blocks ascii_digit "[]" empty_doc]
  note t2 = body_style_inference [of five_sizes_blocks ascii_digit "[]" empty_doc]
  note t3 = body_style_inference [of "get_text_blocks empty_doc" ascii_digit "[]" empty_doc]
  from t3 e have n: "find_body_style (get_text_blocks empty_doc) = None" by simp
  from t1 a have c1: "\<exists>st. find_body_style scenario_blocks = Some st \<and>
      (\<exists>b \<in> set scenario_blocks. substantial b \<and> style b = st) \<and>
      (\<forall>st'. word_total st' scenario_blocks \<le> word_total st scenario_blocks)" by blast
  from t2 b have c2: "\<exists>st. find_body_style five_sizes_blocks = Some st \<and>
      st \<in> style ` set five_sizes_blocks \<and>
      (\<forall>st'. block_count st' five_sizes_blocks \<le> block_count st five_sizes_blocks)" by blast
  from t3 n e have c3: "heuristic_outline ascii_digit [] (get_text_blocks empty_doc) = []"
    "outline (get_outline ascii_digit empty_doc) = []" by blast+
  have f: "filter substantial five_sizes_blocks = []"
    by (simp add: five_sizes_blocks_def substantial_def)
  from a b f c1 c2 c3 n e show ?thesis by blast
qed

section \<open>Claims about the numeric prefix\<close>

text \<open>
  C2, as the code has it. With a digit table that keeps digits apart from the period and
  from whitespace, a text matches the numbering pattern with group \<open>g\<close> exactly when,
  after leading whitespace, it consists of a numbering \<open>g\<close> (groups of digits with single
  periods between them), a whitespace character and any rest; the number of periods of a
  numbering is its number of groups less one. A heading block whose style has a level and
  whose normalized text matches with group \<open>g\<close> is entered in the outline with level
  \<open>H (periods of g + 1)\<close>, whatever the level of its style; only when that level is
  \<open>H 1\<close> and the block is on page 1 with the title as its text, the entry is dropped.
  In particular a block whose normalized text is \<open>3.2.1 Setup\<close> is entered with level
  \<open>H 3\<close> whenever its style has a level. A block whose text does not match keeps the
  level of its style, and a block whose style has no level is not entered, numbered or
  not.
\<close>

theorem numeric_prefix_override:
  "(digits_apart nd \<longrightarrow>
      (list_item_pattern nd t = Some g \<longleftrightarrow>
         (\<exists>gs w rest. numbering nd gs \<and> g = join [46] gs \<and> py_isspace w \<and>
            dropWhile py_isspace t = g @ w # rest))) \<and>
   (digits_apart nd \<and> numbering nd gs \<longrightarrow> int (count_dots (join [46] gs)) + 1 = int (length gs)) \<and>
   (find_body_style bs = Some body \<and> b \<in> set (heading_blocks nd body bs) \<and>
    style_to_level (heading_blocks nd body bs) (style b) = Some lv \<and>
    list_item_pattern nd (join [32] (split (btext b))) = Some g \<and>
    (count_dots g \<noteq> 0 \<or> page_num b \<noteq> 1 \<or> join [32] (split (btext b)) \<noteq> ttl) \<longrightarrow>
      \<lparr>h_level = H (int (count_dots g) + 1), h_text = join [32] (split (btext b)),
       h_page_num = page_num b, h_bbox = Some (bbox b)\<rparr> \<in> set (heuristic_outline nd ttl bs)) \<and>
   (find_body_style bs = Some body \<and> b \<in> set (heading_blocks nd body bs) \<and>
    style_to_level (heading_blocks nd body bs) (style b) = Some lv \<and>
    join [32] (split (btext b)) = ustr ''3.2.1 Setup'' \<and>
    nd 49 \<and> nd 50 \<and> nd 51 \<and> \<not> nd 46 \<and> \<not> nd 32 \<longrightarrow>
      \<lparr>h_level = H 3, h_text = ustr ''3.2.1 Setup'', h_page_num = page_num b,
       h_bbox = Some (bbox b)\<rparr> \<in> set (heuristic_outline nd ttl bs)) \<and>
   (style_to_level hb (style b) = Some lv \<and>
    list_item_pattern nd (join [32] (split (btext b))) = Some g \<longrightarrow>
      outline_entry nd ttl (style_to_level hb) b =
        (if count_dots g = 0 \<and> page_num b = 1 \<and> join [32] (split (btext b)) = ttl then None
         else Some \<lparr>h_level = H (int (count_dots g) + 1), h_text = join [32] (split (btext b)),
                    h_page_num = page_num b, h_bbox = Some (bbox b)\<rparr>)) \<and>
   (style_to_level hb (style b) = Some lv \<and>
    list_item_pattern nd (join [32] (split (btext b))) = None \<longrightarrow>
      outline_entry nd ttl (style_to_level hb) b =
        (if lv = H 1 \<and> page_num b = 1 \<and> join [32] (split (btext b)) = ttl then None
         else Some \<lparr>h_level = lv, h_text = join [32] (split (btext b)),
                    h_page_num = page_num b, h_bbox = Some (bbox b)\<rparr>)) \<and>
   (style_to_level hb (style b) = None \<longrightarrow> outline_entry nd ttl (style_to_level hb) b = None)"
proof (intro conjI impI)
  assume da: "digits_apart nd"
  show "list_item_pattern nd t = Some g \<longleftrightarrow>
         (\<exists>gs w rest. numbering nd gs \<and> g = join [46] gs \<and> py_isspace w \<and>
            dropWhile py_isspace t = g @ w # rest)"
  proof
    assume "list_item_pattern nd t = Some g"
    then show "\<exists>gs w rest. numbering nd gs \<and> g = join [46] gs \<and> py_isspace w \<and>
            dropWhile py_isspace t = g @ w # rest"
      by (rule list_item_pattern_backward)
  next
    assume "\<exists>gs w rest. numbering nd gs \<and> g = join [46] gs \<and> py_isspace w \<and>
            dropWhile py_isspace t = g @ w # rest"
    then obtain gs w rest where "numbering nd gs" "g = join [46] gs" "py_isspace w"
      "dropWhile py_isspace t = join [46] gs @ w # rest" by blast
    with da show "list_item_pattern nd t = Some g"
      by (simp add: list_item_pattern_forward)
  qed
next
  assume a: "digits_apart nd \<and> numbering nd gs"
  then have "\<not> nd 46" "numbering nd gs" by (simp_all add: digits_apart_def)
  then have "count_dots (join [46] gs) + 1 = length gs"
    by (rule count_dots_numbering)
  then show "int (count_dots (join [46] gs)) + 1 = int (length gs)" by linarith
next
  assume a: "find_body_style bs = Some body \<and> b \<in> set (heading_blocks nd body bs) \<and>
    style_to_level (heading_blocks nd body bs) (style b) = Some lv \<and>
    list_item_pattern nd (join [32] (split (btext b))) = Some g \<and>
    (count_dots g \<noteq> 0 \<or> page_num b \<noteq> 1 \<or> join [32] (split (btext b)) \<noteq> ttl)"
  then have "outline_entry nd ttl (style_to_level (heading_blocks nd body bs)) b =
      Some \<lparr>h_level = H (int (count_dots g) + 1), h_text = join [32] (split (btext b)),
            h_page_num = page_num b, h_bbox = Some (bbox b)\<rparr>"
    by (auto simp: outline_entry_def Let_def)
  with a show "\<lparr>h_level = H (int (count_dots g) + 1), h_text = join [32] (split (btext b)),
       h_page_num = page_num b, h_bbox = Some (bbox b)\<rparr> \<in> set (heuristic_outline nd ttl bs)"
    by (blast intro: heuristic_outline_member)
next
  assume a: "find_body_style bs = Some body \<and> b \<in> set (heading_blocks nd body bs) \<and>
    style_to_level (heading_blocks nd body bs) (style b) = Some lv \<and>
    join [32] (split (btext b)) = ustr ''3.2.1 Setup'' \<and>
    nd 49 \<and> nd 50 \<and> nd 51 \<and> \<not> nd 46 \<and> \<not> nd 32"
  then have p: "list_item_pattern nd (join [32] (split (btext b))) = Some (ustr ''3.2.1'')"
    by (simp add: setup_pattern)
  have d: "count_dots (ustr ''3.2.1'') = 2" by (simp add: count_dots_def ustr_def)
  from a p d have "outline_entry nd ttl (style_to_level (heading_blocks nd body bs)) b =
      Some \<lparr>h_level = H 3, h_text = ustr ''3.2.1 Setup'', h_page_num = page_num b,
            h_bbox = Some (bbox b)\<rparr>"
    by (simp add: outline_entry_def Let_def)
  with a show "\<lparr>h_level = H 3, h_text = ustr ''3.2.1 Setup'', h_page_num = page_num b,
       h_bbox = Some (bbox b)\<rparr> \<in> set (heuristic_outline nd ttl bs)"
    by (blast intro: heuristic_outline_member)
next
  assume "style_to_level hb (style b) = Some lv \<and>
    list_item_pattern nd (join [32] (split (btext b))) = Some g"
  then show "outline_entry nd ttl (style_to_level hb) b =
        (if count_dots g = 0 \<and> page_num b = 1 \<and> join [32] (split (btext b)) = ttl then None
         else Some \<lparr>h_level = H (int (count_dots g) + 1), h_text = join [32] (split (btext b)),
                    h_page_num = page_num b, h_bbox = Some (bbox b)\<rparr>)"
    by (simp add: outline_entry_def Let_def)
next
  assume "style_to_level hb (style b) = Some lv \<and>
    list_item_pattern nd (join [32] (split (btext b))) = None"
  then show "outline_entry nd ttl (style_to_level hb) b =
        (if lv = H 1 \<and> page_num b = 1 \<and> join [32] (split (btext b)) = ttl then None
         else Some \<lparr>h_level = lv, h_text = join [32] (split (btext b)),
                    h_page_num = page_num b, h_bbox = Some (bbox b)\<rparr>)"
    by (simp add: outline_entry_def Let_def)
next
  assume "style_to_level hb (style b) = None"
  then show "outline_entry nd ttl (style_to_level hb) b = None"
    by (simp add: outline_entry_def)
qed

theorem numeric_prefix_override_witness:
  "digits_apart ascii_digit \<and>
   list_item_pattern ascii_digit (ustr ''3.2.1 Setup'') = Some (ustr ''3.2.1'') \<and>
   (\<exists>gs w rest. numbering ascii_digit gs \<and> ustr ''3.2.1'' = join [46] gs \<and> py_isspace w \<and>
      dropWhile py_isspace (ustr ''3.2.1 Setup'') = ustr ''3.2.1'' @ w # rest) \<and>
   numbering ascii_digit [[51], [50], [49]] \<and>
   int (count_dots (join [46] [[51], [50], [49]])) + 1 = int (length [[51 :: nat], [50], [49]]) \<and>
   find_body_style scenario_blocks = Some (12, False) \<and>
   scenario_blocks ! 2 \<in> set (heading_blocks ascii_digit (12, False) scenario_blocks) \<and>
   style_to_level (heading_blocks ascii_digit (12, False) scenario_blocks)
     (style (scenario_blocks ! 2)) = Some (H 2) \<and>
   join [32] (split (btext (scenario_blocks ! 2))) = ustr ''3.2.1 Setup'' \<and>
   list_item_pattern ascii_digit (join [32] (split (btext (scenario_blocks ! 2)))) =
     Some (ustr ''3.2.1'') \<and>
   count_dots (ustr ''3.2.1'') = 2 \<and>
   ascii_digit 49 \<and> ascii_digit 50 \<and> ascii_digit 51 \<and> \<not> ascii_digit 46 \<and> \<not> ascii_digit 32 \<and>
   \<lparr>h_level = H 3, h_text = ustr ''3.2.1 Setup'', h_page_num = 1,
    h_bbox = Some (72, 150, 300, 166)\<rparr>
     \<in> set (heuristic_outline ascii_digit (ustr ''Sample Report'') scenario_blocks) \<and>
   style_to_level [year_block] (style year_block) = Some (H 1) \<and>
   list_item_pattern ascii_digit (join [32] (split (btext year_block))) = Some (ustr ''2024'') \<and>
   count_dots (ustr ''2024'') = 0 \<and> page_num year_block = 1 \<and>
   join [32] (split (btext year_block)) = ustr ''2024 Report'' \<and>
   outline_entry ascii_digit (ustr ''2024 Report'') (style_to_level [year_block]) year_block = None \<and>
   outline_entry ascii_digit (ustr ''Sample Report'') (style_to_level [year_block]) year_block =
     Some \<lparr>h_level = H 1, h_text = ustr ''2024 Report'', h_page_num = 1,
           h_bbox = Some (72, 40, 300, 66)\<rparr> \<and>
   list_item_pattern ascii_digit (join [32] (split (btext (five_sizes_blocks ! 1)))) = None \<and>
   style_to_level five_sizes_blocks (style (five_sizes_blocks ! 1)) = Some (H 2) \<and>
   outline_entry ascii_digit (ustr ''Sample Report'') (style_to_level five_sizes_blocks)
     (five_sizes_blocks ! 1) = Some (five_sizes_outline ! 1) \<and>
   style_to_level five_sizes_blocks (style (five_sizes_blocks ! 4)) = None \<and>
   outline_entry ascii_digit (ustr ''Sample Report'') (style_to_level five_sizes_blocks)
     (five_sizes_blocks ! 4) = None"
proof -
  have da: "digits_apart ascii_digit"
    by (auto simp: digits_apart_def ascii_digit_def py_isspace_def)
  have nb: "numbering ascii_digit [[51], [50], [49]]"
    by (simp add: numbering_def digit_run_def ascii_digit_def)
  have m: "scenario_blocks ! 2 \<in> set (heading_blocks ascii_digit (12, False) scenario_blocks)"
    by (simp add: scenario_heading_blocks)
  have l: "style_to_level (heading_blocks ascii_digit (12, False) scenario_blocks)
     (style (scenario_blocks ! 2)) = Some (H 2)"
    using scenario_levels(2) by (simp add: scenario_heading_blocks) (simp add: scenario_blocks_def)
  have t: "join [32] (split (btext (scenario_blocks ! 2))) = ustr ''3.2.1 Setup''"
    by (simp add: scenario_blocks_def text_eval)
  have p: "list_item_pattern ascii_digit (join [32] (split (btext (scenario_blocks ! 2)))) =
     Some (ustr ''3.2.1'')"
    by (simp only: t setup_pattern_ascii)
  have d: "count_dots (ustr ''3.2.1'') = 2" by (simp add: count_dots_def ustr_def)
  have n: "ascii_digit 49 \<and> ascii_digit 50 \<and> ascii_digit 51 \<and> \<not> ascii_digit 46 \<and> \<not> ascii_digit 32"
    by (simp add: ascii_digit_def)
  have f: "page_num (scenario_blocks ! 2) = 1" "bbox (scenario_blocks ! 2) = (72, 150, 300, 166)"
    by (simp_all add: scenario_blocks_def)
  have z: "style_to_level five_sizes_blocks (style (five_sizes_blocks ! 4)) = None"
    using five_sizes_levels(5) by (simp add: five_sizes_blocks_def)
  have y1: "style_to_level [year_block] (style year_block) = Some (H 1)"
    by (simp add: style_to_level_rank size_rank_def year_block_def)
  have y2: "join [32] (split (btext year_block)) = ustr ''2024 Report''"
    by (simp add: year_block_def text_eval)
  have y3: "list_item_pattern ascii_digit (ustr ''2024 Report'') = Some (ustr ''2024'')"
    by (simp add: list_item_pattern_def number_groups.simps ascii_digit_def starts_space_def
        text_eval)
  have y4: "count_dots (ustr ''2024'') = 0" "page_num year_block = 1"
    "bbox year_block = (72, 40, 300, 66)" "ustr ''2024 Report'' \<noteq> ustr ''Sample Report''"
    by (simp_all add: count_dots_def ustr_def year_block_def)
  have c1: "list_item_pattern ascii_digit (join [32] (split (btext (five_sizes_blocks ! 1)))) = None"
    by (simp add: five_sizes_blocks_def list_item_pattern_def ascii_digit_def text_eval)
  have c2: "style_to_level five_sizes_blocks (style (five_sizes_blocks ! 1)) = Some (H 2)"
    using five_sizes_levels(2) by (simp add: five_sizes_blocks_def)
  have c3: "join [32] (split (btext (five_sizes_blocks ! 1))) = ustr ''Chapter''"
    "page_num (five_sizes_blocks ! 1) = 1" "bbox (five_sizes_blocks ! 1) = (72, 70, 300, 92)"
    "five_sizes_outline ! 1 = \<lparr>h_level = H 2, h_text = ustr ''Chapter'', h_page_num = 1,
       h_bbox = Some (72, 70, 300, 92)\<rparr>"
    by (simp_all add: five_sizes_blocks_def five_sizes_outline_def text_eval)
  note t1 = numeric_prefix_override [where nd = ascii_digit and t = "ustr ''3.2.1 Setup''"
      and g = "ustr ''3.2.1''" and gs = "[[51], [50], [49]]" and bs = scenario_blocks
      and body = "(12, False)" and b = "scenario_blocks ! 2" and lv = "H 2"
      and ttl = "ustr ''Sample Report''" and hb = five_sizes_blocks]
  note t2 = numeric_prefix_override [where nd = ascii_digit and t = "ustr ''3.2.1 Setup''"
      and g = "ustr ''2024''" and gs = "[[51], [50], [49]]" and bs = scenario_blocks
      and body = "(12, False)" and b = year_block and lv = "H 1"
      and ttl = "ustr ''2024 Report''" and hb = "[year_block]"]
  note t3 = numeric_prefix_override [where nd = ascii_digit and t = "ustr ''3.2.1 Setup''"
      and g = "ustr ''2024''" and gs = "[[51], [50], [49]]" and bs = scenario_blocks
      and body = "(12, False)" and b = year_block and lv = "H 1"
      and ttl = "ustr ''Sample Report''" and hb = "[year_block]"]
  note t4 = numeric_prefix_override [where nd = ascii_digit and t = "ustr ''3.2.1 Setup''"
      and g = "ustr ''3.2.1''" and gs = "[[51], [50], [49]]" and bs = scenario_blocks
      and body = "(12, False)" and b = "five_sizes_blocks ! 1" and lv = "H 2"
      and ttl = "ustr ''Sample Report''" and hb = five_sizes_blocks]
  note t5 = numeric_prefix_override [where nd = ascii_digit and t = "ustr ''3.2.1 Setup''"
      and g = "ustr ''3.2.1''" and gs = "[[51], [50], [49]]" and bs = scenario_blocks
      and body = "(12, False)" and b = "five_sizes_blocks ! 4" and lv = "H 2"
      and ttl = "ustr ''Sample Report''" and hb = five_sizes_blocks]
  from t1 da setup_pattern_ascii have e1:
    "\<exists>gs w rest. numbering ascii_digit gs \<and> ustr ''3.2.1'' = join [46] gs \<and> py_isspace w \<and>
      dropWhile py_isspace (ustr ''3.2.1 Setup'') = ustr ''3.2.1'' @ w # rest" by blast
  from t1 da nb have e2:
    "int (count_dots (join [46] [[51], [50], [49]])) + 1 = int (length [[51 :: nat], [50], [49]])"
    by blast
  from t1 scenario_body_style m l t p d n f have e3:
    "\<lparr>h_level = H 3, h_text = ustr ''3.2.1 Setup'', h_page_num = 1,
      h_bbox = Some (72, 150, 300, 166)\<rparr>
       \<in> set (heuristic_outline ascii_digit (ustr ''Sample Report'') scenario_blocks)"
    by simp
  have y5: "list_item_pattern ascii_digit (join [32] (split (btext year_block))) = Some (ustr ''2024'')"
    by (simp only: y2 y3)
  from t2 y1 y5 y2 y4 have e4:
    "outline_entry ascii_digit (ustr ''2024 Report'') (style_to_level [year_block]) year_block = None"
    by simp
  from t3 y1 y5 y2 y4 have e5:
    "outline_entry ascii_digit (ustr ''Sample Report'') (style_to_level [year_block]) year_block =
     Some \<lparr>h_level = H 1, h_text = ustr ''2024 Report'', h_page_num = 1,
           h_bbox = Some (72, 40, 300, 66)\<rparr>"
    by simp
  from t4 c1 c2 c3 have e6:
    "outline_entry ascii_digit (ustr ''Sample Report'') (style_to_level five_sizes_blocks)
     (five_sizes_blocks ! 1) = Some (five_sizes_outline ! 1)"
    by simp
  from t5 z have e7: "outline_entry ascii_digit (ustr ''Sample Report'')
     (style_to_level five_sizes_blocks) (five_sizes_blocks ! 4) = None" by blast
  from da setup_pattern_ascii e1 nb e2 scenario_body_style m l t p d n e3 y1 y5 y4(1,2) y2 e4 e5
    c1 c2 e6 z e7
  show ?thesis by blast
qed

text \<open>
  C2 as stated fails on a document with five heading sizes: the block \<open>3.2.1 Setup\<close> in
  the fifth size survives the filter, but its style has no level and the outline has no
  entry for it.
\<close>

theorem numeric_prefix_override_counterexample:
  "find_body_style (get_text_blocks five_sizes_doc) = Some (12, False) \<and>
   heading_blocks ascii_digit (12, False) (get_text_blocks five_sizes_doc) = five_sizes_blocks \<and>
   btext (five_sizes_blocks ! 4) = ustr ''3.2.1 Setup'' \<and>
   list_item_pattern ascii_digit (join [32] (split (btext (five_sizes_blocks ! 4)))) =
     Some (ustr ''3.2.1'') \<and>
   outline (get_outline ascii_digit five_sizes_doc) = five_sizes_outline \<and>
   map h_text five_sizes_outline =
     [ustr ''Part One'', ustr ''Chapter'', ustr ''Section'', ustr ''Topic'']"
proof -
  have t: "join [32] (split (btext (five_sizes_blocks ! 4))) = ustr ''3.2.1 Setup''"
    by (simp add: five_sizes_blocks_def text_eval)
  have "btext (five_sizes_blocks ! 4) = ustr ''3.2.1 Setup''"
    by (simp add: five_sizes_blocks_def)
  moreover have "list_item_pattern ascii_digit (join [32] (split (btext (five_sizes_blocks ! 4)))) =
     Some (ustr ''3.2.1'')"
    by (simp only: t setup_pattern_ascii)
  moreover have "map h_text five_sizes_outline =
     [ustr ''Part One'', ustr ''Chapter'', ustr ''Section'', ustr ''Topic'']"
    by (simp add: five_sizes_outline_def)
  ultimately show ?thesis
    by (simp add: five_sizes_get_text_blocks five_sizes_body_style five_sizes_heading_blocks
        five_sizes_get_outline)
qed

section \<open>Claims about the range of levels\<close>

text \<open>
  C3 at a document whose one heading is numbered five levels deep
  (\<open>1.2.3.4.5 Tolerances\<close> in 14 bold above a body in 12): \<open>get_outline\<close> returns that
  heading with level \<open>H 5\<close>, outside the range 1 to 4 that the native path and the style
  levels keep.
\<close>

theorem numbered_heading_level_five:
  "toc numbered_doc = [] \<and>
   get_text_blocks numbered_doc = numbered_blocks \<and>
   outline (get_outline ascii_digit numbered_doc) = numbered_outline \<and>
   map h_level numbered_outline = [H 5]"
proof -
  have t: "toc numbered_doc = []" by (simp add: numbered_doc_def)
  have "map h_level numbered_outline = [H 5]" by (simp add: numbered_outline_def)
  with t show ?thesis
    by (simp add: get_outline_def Let_def numbered_title numbered_get_text_blocks
        numbered_heuristic)
qed

section \<open>Claims about the native outline\<close>

text \<open>
  C8, as the code has it. The native entries with a level from 1 to 4 and a letter in
  their text are kept in their order, with the text stripped and no box. When at least
  one entry is kept, \<open>get_outline\<close> returns exactly these entries, whatever the pages
  hold; when none is kept, the outline is the one of the heuristic pipeline.
\<close>

theorem native_outline_preferred:
  "native_outline t =
     map (\<lambda>(lv, text, pg). \<lparr>h_level = H lv, h_text = strip text, h_page_num = pg, h_bbox = None\<rparr>)
       (filter (\<lambda>(lv, text, pg). 1 \<le> lv \<and> lv \<le> 4 \<and> has_alpha (strip text)) t) \<and>
   (native_outline (toc doc) \<noteq> [] \<longrightarrow>
      outline (get_outline nd doc) = native_outline (toc doc) \<and>
      outline (get_outline nd (doc\<lparr>pages := ps\<rparr>)) = native_outline (toc doc)) \<and>
   (native_outline (toc doc) = [] \<longrightarrow>
      outline (get_outline nd doc) = heuristic_outline nd (extract_title doc) (get_text_blocks doc))"
proof (intro conjI impI)
  show "native_outline t =
     map (\<lambda>(lv, text, pg). \<lparr>h_level = H lv, h_text = strip text, h_page_num = pg, h_bbox = None\<rparr>)
       (filter (\<lambda>(lv, text, pg). 1 \<le> lv \<and> lv \<le> 4 \<and> has_alpha (strip text)) t)"
    by (rule native_outline_filter)
next
  assume "native_outline (toc doc) \<noteq> []"
  then show "outline (get_outline nd doc) = native_outline (toc doc)"
    by (rule get_outline_native)
next
  assume "native_outline (toc doc) \<noteq> []"
  then have "native_outline (toc (doc\<lparr>pages := ps\<rparr>)) \<noteq> []" by simp
  from get_outline_native [OF this]
  show "outline (get_outline nd (doc\<lparr>pages := ps\<rparr>)) = native_outline (toc doc)" by simp
next
  assume "native_outline (toc doc) = []"
  then show "outline (get_outline nd doc) =
      heuristic_outline nd (extract_title doc) (get_text_blocks doc)"
    by (rule get_outline_heuristic)
qed

theorem native_outline_preferred_witness:
  "native_outline (toc native_doc) = native_doc_outline \<and>
   native_outline (toc native_doc) \<noteq> [] \<and>
   outline (get_outline ascii_digit native_doc) = native_doc_outline \<and>
   outline (get_outline ascii_digit (native_doc\<lparr>pages := []\<rparr>)) = native_doc_outline \<and>
   native_outline (toc letterless_toc_doc) = [] \<and>
   outline (get_outline ascii_digit letterless_toc_doc) =
     heuristic_outline ascii_digit (extract_title letterless_toc_doc) (get_text_blocks letterless_toc_doc)"
proof -
  have ne: "native_outline (toc native_doc) \<noteq> []"
    by (simp add: native_doc_native native_doc_outline_def)
  note t1 = native_outline_preferred [of "toc native_doc" native_doc ascii_digit "[]"]
  note t2 = native_outline_preferred [of "toc native_doc" letterless_toc_doc ascii_digit "[]"]
  from t1 ne have "outline (get_outline ascii_digit native_doc) = native_outline (toc native_doc)"
    "outline (get_outline ascii_digit (native_doc\<lparr>pages := []\<rparr>)) = native_outline (toc native_doc)"
    by blast+
  moreover from t2 letterless_toc_native have "outline (get_outline ascii_digit letterless_toc_doc) =
     heuristic_outline ascii_digit (extract_title letterless_toc_doc) (get_text_blocks letterless_toc_doc)"
    by blast
  ultimately show ?thesis using ne letterless_toc_native by (simp add: native_doc_native)
qed

text \<open>
  C8 as stated fails on a document whose native outline has the two entries \<open>1.\<close> and
  \<open>2024\<close>, of levels 1 and 2: the outline is there, neither entry has a letter, no
  entry is kept, and \<open>get_outline\<close> returns the two headings that the heuristic
  pipeline finds on the page.
\<close>

theorem native_outline_preferred_counterexample:
  "toc letterless_toc_doc = [(1, ustr ''1.'', 1), (2, ustr ''2024'', 1)] \<and>
   native_outline (toc letterless_toc_doc) = [] \<and>
   get_text_blocks letterless_toc_doc = scenario_blocks \<and>
   outline (get_outline ascii_digit letterless_toc_doc) = scenario_outline \<and>
   map h_text scenario_outline = [ustr ''Introduction'', ustr ''3.2.1 Setup'']"
proof -
  have "toc letterless_toc_doc = [(1, ustr ''1.'', 1), (2, ustr ''2024'', 1)]" by (simp add: letterless_toc_doc_def)
  moreover have "get_text_blocks letterless_toc_doc = scenario_blocks"
    by (simp add: letterless_toc_doc_def scenario_text_blocks)
  moreover have "map h_text scenario_outline = [ustr ''Introduction'', ustr ''3.2.1 Setup'']"
    by (simp add: scenario_outline_def)
  moreover note letterless_toc_native letterless_toc_get_outline
  ultimately show ?thesis by blast
qed

section \<open>Claims about headings without a box\<close>

text \<open>
  C9, as the code has it. A heading that lacks a bounding box is skipped by the
  sectionizer: its turn of the loop adds no section. An outline in which no heading has a
  box gives the empty section list, and so does every document whose native outline is
  used.
\<close>

theorem headings_without_box_skipped:
  "(i < length ol \<and> h_bbox (ol ! i) = None \<longrightarrow> section_at doc ol i = Inr None) \<and>
   (list_all (\<lambda>h. h_bbox h = None) ol \<longrightarrow> sections_of doc ol = Inr []) \<and>
   (native_outline (toc doc) \<noteq> [] \<longrightarrow> get_sections nd doc = Inr [])"
proof (intro conjI impI)
  assume "i < length ol \<and> h_bbox (ol ! i) = None"
  then show "section_at doc ol i = Inr None" by (simp add: section_at_no_bbox)
next
  assume "list_all (\<lambda>h. h_bbox h = None) ol"
  then show "sections_of doc ol = Inr []" by (rule sections_of_no_bbox)
next
  assume ne: "native_outline (toc doc) \<noteq> []"
  have "list_all (\<lambda>h. h_bbox h = None) (native_outline (toc doc))"
    by (simp add: list_all_iff native_outline_no_bbox)
  then show "get_sections nd doc = Inr []"
    by (simp add: get_sections_def get_outline_native [OF ne] sections_of_no_bbox)
qed

theorem headings_without_box_skipped_witness:
  "(0::nat) < length native_doc_outline \<and> h_bbox (native_doc_outline ! 0) = None \<and>
   section_at native_doc native_doc_outline 0 = Inr None \<and>
   list_all (\<lambda>h. h_bbox h = None) native_doc_outline \<and>
   sections_of native_doc native_doc_outline = Inr [] \<and>
   native_outline (toc native_doc) \<noteq> [] \<and>
   get_sections ascii_digit native_doc = Inr []"
proof -
  have a: "(0::nat) < length native_doc_outline \<and> h_bbox (native_doc_outline ! 0) = None"
    by (simp add: native_doc_outline_def)
  have b: "list_all (\<lambda>h. h_bbox h = None) native_doc_outline"
    by (simp add: native_doc_outline_def)
  have c: "native_outline (toc native_doc) \<noteq> []"
    by (simp add: native_doc_native native_doc_outline_def)
  from headings_without_box_skipped [of 0 native_doc_outline native_doc ascii_digit] a b c
  show ?thesis by blast
qed

text \<open>
  C9 as stated fails on a document with a native outline of two entries: both headings
  lack a box, and the sectionizer returns no section at all, on a page that has text.
\<close>

theorem headings_without_box_counterexample:
  "outline (get_outline ascii_digit native_doc) = native_doc_outline \<and>
   map h_bbox native_doc_outline = [None, None] \<and>
   length (pages native_doc) = 1 \<and>
   get_sections ascii_digit native_doc = Inr []"
proof -
  have "list_all (\<lambda>h. h_bbox h = None) native_doc_outline"
    by (simp add: native_doc_outline_def)
  then have "get_sections ascii_digit native_doc = Inr []"
    by (simp add: get_sections_def native_doc_get_outline sections_of_no_bbox)
  moreover have "map h_bbox native_doc_outline = [None, None]"
    by (simp add: native_doc_outline_def)
  moreover have "length (pages native_doc) = 1"
    by (simp add: native_doc_def scenario_doc_def scenario_pages_def)
  ultimately show ?thesis by (simp add: native_doc_get_outline)
qed

section \<open>Claims about section boundaries\<close>

text \<open>
  C6, as the code has it. On the heuristic path \<open>get_sections\<close> returns one section for
  each heading of the outline, in order, and so does the sectionizer on every outline
  whose headings have a box and a page of the document. The section of heading \<open>i\<close> has
  the heading's text as title and, as content, the title line followed by the cleaned
  text of the region that starts on the heading's page at the bottom of the heading's box
  and ends, when there is a next heading, on that heading's page at the top of its box.
  The next section starts on the same page at the bottom of that box, so the two
  boundaries are separated by the height of the heading's box, which is in neither body.
  The region of the last heading ends at the bottom of the last page. When a heading and
  the next are on one page, the body is exactly the text between the bottom of the one
  box and the top of the other.
\<close>

theorem section_boundaries:
  "(native_outline (toc doc) = [] \<longrightarrow>
      get_sections nd doc =
        Inr (map (expected_section doc (outline (get_outline nd doc)))
               [0 ..< length (outline (get_outline nd doc))])) \<and>
   (list_all (located doc) ol \<longrightarrow>
      sections_of doc ol = Inr (map (expected_section doc ol) [0 ..< length ol])) \<and>
   (list_all (located doc) ol \<and> i < length ol \<longrightarrow>
      section_at doc ol i =
        Inr (Some \<lparr>section_title = h_text (ol ! i), page_number = h_page_num (ol ! i),
                   content = h_text (ol ! i) @ [10] @
                     clean (region_text doc (heading_bottom (ol ! i)) (region_end doc ol i))\<rparr>)) \<and>
   (i + 1 < length ol \<and> h_bbox (ol ! (i + 1)) = Some nb \<longrightarrow>
      region_end doc ol i = (h_page_num (ol ! (i + 1)) - 1, bbox_1 nb) \<and>
      heading_bottom (ol ! (i + 1)) = (h_page_num (ol ! (i + 1)) - 1, bbox_3 nb)) \<and>
   (length ol \<le> i + 1 \<longrightarrow>
      region_end doc ol i = (int (length (pages doc)) - 1, page_height (last (pages doc)))) \<and>
   (i + 1 < length ol \<and> h_bbox (ol ! i) = Some b \<and> h_bbox (ol ! (i + 1)) = Some nb \<and>
    h_page_num (ol ! i) = h_page_num (ol ! (i + 1)) \<longrightarrow>
      region_text doc (heading_bottom (ol ! i)) (region_end doc ol i) =
        (if bbox_3 b < bbox_1 nb
         then page_text (pages doc ! nat (h_page_num (ol ! i) - 1)) (bbox_3 b) (bbox_1 nb)
         else []))"
proof (intro conjI impI)
  assume "native_outline (toc doc) = []"
  then show "get_sections nd doc =
        Inr (map (expected_section doc (outline (get_outline nd doc)))
               [0 ..< length (outline (get_outline nd doc))])"
    by (rule get_sections_heuristic)
next
  assume "list_all (located doc) ol"
  then show "sections_of doc ol = Inr (map (expected_section doc ol) [0 ..< length ol])"
    by (rule sections_of_expected)
next
  assume "list_all (located doc) ol \<and> i < length ol"
  then have "section_at doc ol i = Inr (Some (expected_section doc ol i))"
    by (simp add: section_at_expected)
  then show "section_at doc ol i =
        Inr (Some \<lparr>section_title = h_text (ol ! i), page_number = h_page_num (ol ! i),
                   content = h_text (ol ! i) @ [10] @
                     clean (region_text doc (heading_bottom (ol ! i)) (region_end doc ol i))\<rparr>)"
    by (simp add: expected_section_def)
next
  assume "i + 1 < length ol \<and> h_bbox (ol ! (i + 1)) = Some nb"
  then show "region_end doc ol i = (h_page_num (ol ! (i + 1)) - 1, bbox_1 nb)"
    by (simp add: region_end_def heading_top_def)
next
  assume "i + 1 < length ol \<and> h_bbox (ol ! (i + 1)) = Some nb"
  then show "heading_bottom (ol ! (i + 1)) = (h_page_num (ol ! (i + 1)) - 1, bbox_3 nb)"
    by (simp add: heading_bottom_def)
next
  assume "length ol \<le> i + 1"
  then show "region_end doc ol i =
      (int (length (pages doc)) - 1, page_height (last (pages doc)))"
    by (simp add: region_end_def document_end_def)
next
  assume a: "i + 1 < length ol \<and> h_bbox (ol ! i) = Some b \<and> h_bbox (ol ! (i + 1)) = Some nb \<and>
    h_page_num (ol ! i) = h_page_num (ol ! (i + 1))"
  then have "fst (heading_bottom (ol ! i)) = fst (region_end doc ol i)"
    by (simp add: heading_bottom_def region_end_def heading_top_def)
  from region_text_one_page [OF this] a
  show "region_text doc (heading_bottom (ol ! i)) (region_end doc ol i) =
        (if bbox_3 b < bbox_1 nb
         then page_text (pages doc ! nat (h_page_num (ol ! i) - 1)) (bbox_3 b) (bbox_1 nb)
         else [])"
    by (simp add: clip_on_page_def heading_bottom_def region_end_def heading_top_def Let_def)
qed

theorem section_boundaries_witness:
  "native_outline (toc scenario_doc) = [] \<and>
   get_sections ascii_digit scenario_doc =
     Inr (map (expected_section scenario_doc scenario_outline) [0 ..< length scenario_outline]) \<and>
   get_sections ascii_digit scenario_doc = Inr scenario_sections \<and>
   list_all (located scenario_doc) scenario_outline \<and>
   sections_of scenario_doc scenario_outline =
     Inr (map (expected_section scenario_doc scenario_outline) [0 ..< length scenario_outline]) \<and>
   (0::nat) + 1 < length scenario_outline \<and>
   h_bbox (scenario_outline ! 0) = Some (72, 72, 300, 92) \<and>
   h_bbox (scenario_outline ! (0 + 1)) = Some (72, 150, 300, 166) \<and>
   h_page_num (scenario_outline ! 0) = h_page_num (scenario_outline ! (0 + 1)) \<and>
   section_at scenario_doc scenario_outline 0 =
     Inr (Some \<lparr>section_title = ustr ''Introduction'', page_number = 1,
                content = ustr ''Introduction'' @ [10] @
                  clean (region_text scenario_doc (0, 92) (0, 150))\<rparr>) \<and>
   region_end scenario_doc scenario_outline 0 = (0, 150) \<and>
   heading_bottom (scenario_outline ! (0 + 1)) = (0, 166) \<and>
   region_text scenario_doc (0, 92) (0, 150) = page_text (scenario_pages ! 0) 92 150 \<and>
   length scenario_outline \<le> 1 + 1 \<and>
   region_end scenario_doc scenario_outline 1 = (0, 792)"
proof -
  have n: "native_outline (toc scenario_doc) = []"
    by (simp add: scenario_doc_def native_outline_def)
  have l: "list_all (located scenario_doc) scenario_outline"
    by (simp add: located_def scenario_outline_def scenario_doc_def scenario_pages_def)
  have a: "(0::nat) + 1 < length scenario_outline"
    "h_bbox (scenario_outline ! 0) = Some (72, 72, 300, 92)"
    "h_bbox (scenario_outline ! (0 + 1)) = Some (72, 150, 300, 166)"
    "h_page_num (scenario_outline ! 0) = h_page_num (scenario_outline ! (0 + 1))"
    "length scenario_outline \<le> 1 + 1"
    by (simp_all add: scenario_outline_def)
  have v: "h_text (scenario_outline ! 0) = ustr ''Introduction''"
    "h_page_num (scenario_outline ! 0) = 1" "h_page_num (scenario_outline ! (0 + 1)) - 1 = 0"
    "heading_bottom (scenario_outline ! 0) = (0, 92)"
    "bbox_1 (72, 150, 300, 166) = 150" "bbox_3 (72, 150, 300, 166) = 166"
    "bbox_3 (72, 72, 300, 92) = 92"
    "int (length (pages scenario_doc)) - 1 = 0" "page_height (last (pages scenario_doc)) = 792"
    "pages scenario_doc ! nat (1 - 1) = scenario_pages ! 0"
    by (simp_all add: scenario_outline_def heading_bottom_def bbox_1_def bbox_3_def
        scenario_doc_def scenario_pages_def)
  note t0 = section_boundaries [of scenario_doc ascii_digit scenario_outline 0
      "(72, 150, 300, 166)" "(72, 72, 300, 92)"]
  note t1 = section_boundaries [of scenario_doc ascii_digit scenario_outline 1
      "(72, 150, 300, 166)" "(72, 72, 300, 92)"]
  from t0 n have g: "get_sections ascii_digit scenario_doc =
      Inr (map (expected_section scenario_doc (outline (get_outline ascii_digit scenario_doc)))
             [0 ..< length (outline (get_outline ascii_digit scenario_doc))])" by blast
  from t0 l have s: "sections_of scenario_doc scenario_outline =
     Inr (map (expected_section scenario_doc scenario_outline) [0 ..< length scenario_outline])"
    by blast
  from t0 a(1,3) have e: "region_end scenario_doc scenario_outline 0 =
      (h_page_num (scenario_outline ! (0 + 1)) - 1, bbox_1 (72, 150, 300, 166))"
    "heading_bottom (scenario_outline ! (0 + 1)) =
      (h_page_num (scenario_outline ! (0 + 1)) - 1, bbox_3 (72, 150, 300, 166))" by blast+
  have a0: "scenario_outline \<noteq> []" by (simp add: scenario_outline_def)
  from t0 l a0 have "section_at scenario_doc scenario_outline 0 =
        Inr (Some \<lparr>section_title = h_text (scenario_outline ! 0),
                   page_number = h_page_num (scenario_outline ! 0),
                   content = h_text (scenario_outline ! 0) @ [10] @
                     clean (region_text scenario_doc (heading_bottom (scenario_outline ! 0))
                       (region_end scenario_doc scenario_outline 0))\<rparr>)" by simp
  with e v have c: "section_at scenario_doc scenario_outline 0 =
     Inr (Some \<lparr>section_title = ustr ''Introduction'', page_number = 1,
                content = ustr ''Introduction'' @ [10] @
                  clean (region_text scenario_doc (0, 92) (0, 150))\<rparr>)" by simp
  from t0 a have "region_text scenario_doc (heading_bottom (scenario_outline ! 0))
        (region_end scenario_doc scenario_outline 0) =
        (if bbox_3 (72, 72, 300, 92) < bbox_1 (72, 150, 300, 166)
         then page_text (pages scenario_doc ! nat (h_page_num (scenario_outline ! 0) - 1))
                (bbox_3 (72, 72, 300, 92)) (bbox_1 (72, 150, 300, 166))
         else [])" by blast
  with e v have r: "region_text scenario_doc (0, 92) (0, 150) = page_text (scenario_pages ! 0) 92 150"
    by simp
  from t1 a(5) v have f: "region_end scenario_doc scenario_outline 1 = (0, 792)" by simp
  from g have g': "get_sections ascii_digit scenario_doc =
     Inr (map (expected_section scenario_doc scenario_outline) [0 ..< length scenario_outline])"
    by (simp only: scenario_get_outline)
  from e v have e': "region_end scenario_doc scenario_outline 0 = (0, 150)"
    "heading_bottom (scenario_outline ! (0 + 1)) = (0, 166)" by simp_all
  from n g' scenario_get_sections l s a c e' r f show ?thesis by blast
qed

text \<open>
  C6 as stated fails on the one-page document with the headings \<open>Introduction\<close> and
  \<open>3.2.1 Setup\<close>: the first section ends at y = 150, the top of the second heading, and
  the second section starts at y = 166, the bottom of that heading.
\<close>

theorem section_boundaries_counterexample:
  "outline (get_outline ascii_digit scenario_doc) = scenario_outline \<and>
   get_sections ascii_digit scenario_doc = Inr scenario_sections \<and>
   length scenario_sections = 2 \<and>
   section_end scenario_doc scenario_outline 0 = Inr (0, 150) \<and>
   section_start (scenario_outline ! 1) (72, 150, 300, 166) = (0, 166) \<and>
   h_bbox (scenario_outline ! 1) = Some (72, 150, 300, 166)"
  by (simp add: scenario_get_outline scenario_get_sections)
     (simp add: scenario_outline_def scenario_sections_def section_end_def section_start_def
       bbox_1_def bbox_3_def)

section \<open>Claims about the candidate filter\<close>




section \<open>Claims about the title\<close>




section \<open>Properties of the ranker\<close>

lemma sorted_reverse_desc:
  "sorted_wrt (\<lambda>a b. f b \<le> f a) (sorted_reverse f xs)"
proof -
  have "sorted (map f (sort_key f (rev xs)))" by (rule sorted_sort_key)
  then have "sorted_wrt (\<lambda>a b. f a \<le> f b) (sort_key f (rev xs))"
    by (simp add: sorted_map)
  then show ?thesis
    by (simp add: sorted_reverse_def sorted_wrt_rev)
qed

lemma sorted_reverse_stable:
  "filter (\<lambda>x. f x = k) (sorted_reverse f xs) = filter (\<lambda>x. f x = k) xs"
  by (simp add: sorted_reverse_def rev_filter [symmetric] sort_key_stable)

lemma sorted_reverse_mset: "mset (sorted_reverse f xs) = mset xs"
  by (simp add: sorted_reverse_def)

lemma sorted_reverse_idem: "sorted_reverse f (sorted_reverse f xs) = sorted_reverse f xs"
  by (simp add: sorted_reverse_def sort_key_id_if_sorted)

lemma relevance_score_with_score [simp]: "relevance_score (with_score s r) = r"
  by (simp add: with_score_def sect.extend_def)

lemma truncate_with_score [simp]: "sect.truncate (with_score s r) = s"
  by (simp add: with_score_def sect.extend_def sect.truncate_def)

lemma map2_with_score_scores:
  "length secs \<le> length sims \<Longrightarrow>
   map relevance_score (map2 with_score secs sims) = take (length secs) sims"
proof (induction secs arbitrary: sims)
  case Nil
  then show ?case by simp
next
  case (Cons s secs)
  then show ?case by (cases sims) simp_all
qed

lemma map2_with_score_sections:
  "length secs \<le> length sims \<Longrightarrow> map sect.truncate (map2 with_score secs sims) = secs"
proof (induction secs arbitrary: sims)
  case Nil
  then show ?case by simp
next
  case (Cons s secs)
  then show ?case by (cases sims) simp_all
qed

text \<open>
  C10. \<open>rank_sections\<close> returns the empty list on an empty input, and it returns on a
  non-empty input whenever \<open>cosine_similarity\<close> gives a first row with a score for each
  section. When it returns on a non-empty input, the scores are the first row
  of what \<open>cosine_similarity\<close> gives for the embedding of the query and the embeddings
  of the section contents: section number \<open>i\<close> of the input gets score number \<open>i\<close> of
  that row and keeps its fields, and the result is these scored sections sorted with
  \<open>reverse=True\<close>. So the result is in descending order of score, sections of equal
  score stand in their input order, the sections returned are the sections given, and
  ranking the result again by its scores leaves it unchanged. On an empty input the
  result is empty.
\<close>

theorem rank_sections_descending_stable:
  "(secs = [] \<longrightarrow> rank_sections encode cosine_similarity persona job secs = Inr []) \<and>
   (secs \<noteq> [] \<and>
    cosine_similarity (encode [query_string persona job]) (encode (map content secs)) =
      sims # rest \<and>
    length secs \<le> length sims \<longrightarrow>
      rank_sections encode cosine_similarity persona job secs =
        Inr (sorted_reverse relevance_score (map2 with_score secs sims)) \<and>
      map relevance_score (map2 with_score secs sims) = take (length secs) sims \<and>
      map sect.truncate (map2 with_score secs sims) = secs) \<and>
   (rank_sections encode cosine_similarity persona job secs = Inr rs \<longrightarrow>
      (secs = [] \<longrightarrow> rs = []) \<and>
      (secs \<noteq> [] \<longrightarrow>
         (\<exists>sims rest.
            cosine_similarity (encode [query_string persona job]) (encode (map content secs)) =
              sims # rest \<and>
            length secs \<le> length sims \<and>
            rs = sorted_reverse relevance_score (map2 with_score secs sims) \<and>
            map relevance_score (map2 with_score secs sims) = take (length secs) sims \<and>
            map sect.truncate (map2 with_score secs sims) = secs \<and>
            (\<forall>k. filter (\<lambda>x. relevance_score x = k) rs =
                 filter (\<lambda>x. relevance_score x = k) (map2 with_score secs sims)))) \<and>
      sorted_wrt (\<lambda>a b. relevance_score b \<le> relevance_score a) rs \<and>
      mset (map sect.truncate rs) = mset secs \<and>
      sorted_reverse relevance_score rs = rs)"
proof -
  have p1: "secs = [] \<longrightarrow> rank_sections encode cosine_similarity persona job secs = Inr []"
    by (simp add: rank_sections_def)
  have p2: "secs \<noteq> [] \<and>
    cosine_similarity (encode [query_string persona job]) (encode (map content secs)) =
      sims # rest \<and> length secs \<le> length sims \<longrightarrow>
      rank_sections encode cosine_similarity persona job secs =
        Inr (sorted_reverse relevance_score (map2 with_score secs sims)) \<and>
      map relevance_score (map2 with_score secs sims) = take (length secs) sims \<and>
      map sect.truncate (map2 with_score secs sims) = secs"
  proof
    assume a: "secs \<noteq> [] \<and>
      cosine_similarity (encode [query_string persona job]) (encode (map content secs)) =
        sims # rest \<and> length secs \<le> length sims"
    then have len: "length secs \<le> length sims" by blast
    from a have "rank_sections encode cosine_similarity persona job secs =
        Inr (sorted_reverse relevance_score (map2 with_score secs sims))"
      by (simp add: rank_sections_def Let_def)
    with map2_with_score_scores [OF len] map2_with_score_sections [OF len]
    show "rank_sections encode cosine_similarity persona job secs =
        Inr (sorted_reverse relevance_score (map2 with_score secs sims)) \<and>
      map relevance_score (map2 with_score secs sims) = take (length secs) sims \<and>
      map sect.truncate (map2 with_score secs sims) = secs"
      by blast
  qed
  have p3: "rank_sections encode cosine_similarity persona job secs = Inr rs \<longrightarrow>
      (secs = [] \<longrightarrow> rs = []) \<and>
      (secs \<noteq> [] \<longrightarrow>
         (\<exists>sims rest.
            cosine_similarity (encode [query_string persona job]) (encode (map content secs)) =
              sims # rest \<and>
            length secs \<le> length sims \<and>
            rs = sorted_reverse relevance_score (map2 with_score secs sims) \<and>
            map relevance_score (map2 with_score secs sims) = take (length secs) sims \<and>
            map sect.truncate (map2 with_score secs sims) = secs \<and>
            (\<forall>k. filter (\<lambda>x. relevance_score x = k) rs =
                 filter (\<lambda>x. relevance_score x = k) (map2 with_score secs sims)))) \<and>
      sorted_wrt (\<lambda>a b. relevance_score b \<le> relevance_score a) rs \<and>
      mset (map sect.truncate rs) = mset secs \<and>
      sorted_reverse relevance_score rs = rs"
  proof
    assume r: "rank_sections encode cosine_similarity persona job secs = Inr rs"
    show "(secs = [] \<longrightarrow> rs = []) \<and>
      (secs \<noteq> [] \<longrightarrow>
         (\<exists>sims rest.
            cosine_similarity (encode [query_string persona job]) (encode (map content secs)) =
              sims # rest \<and>
            length secs \<le> length sims \<and>
            rs = sorted_reverse relevance_score (map2 with_score secs sims) \<and>
            map relevance_score (map2 with_score secs sims) = take (length secs) sims \<and>
            map sect.truncate (map2 with_score secs sims) = secs \<and>
            (\<forall>k. filter (\<lambda>x. relevance_score x = k) rs =
                 filter (\<lambda>x. relevance_score x = k) (map2 with_score secs sims)))) \<and>
      sorted_wrt (\<lambda>a b. relevance_score b \<le> relevance_score a) rs \<and>
      mset (map sect.truncate rs) = mset secs \<and>
      sorted_reverse relevance_score rs = rs"
    proof (cases "secs = []")
      case True
      with r have "rs = []" by (simp add: rank_sections_def)
      with True show ?thesis by (simp add: sorted_reverse_def)
    next
      case False
      let ?m = "cosine_similarity (encode [query_string persona job]) (encode (map content secs))"
      let ?scored = "\<lambda>sims. map2 with_score secs sims"
      from r False obtain sims rest where m: "?m = sims # rest"
        by (cases ?m) (auto simp: rank_sections_def Let_def)
      from r False m have len: "length secs \<le> length sims"
        and rs: "rs = sorted_reverse relevance_score (?scored sims)"
        by (auto simp: rank_sections_def Let_def split: if_splits)
      have "mset (map sect.truncate rs) = mset (map sect.truncate (?scored sims))"
        unfolding rs by (simp only: mset_map sorted_reverse_mset)
      then have perm: "mset (map sect.truncate rs) = mset secs"
        by (simp only: map2_with_score_sections [OF len])
      have ex: "\<exists>sims rest. ?m = sims # rest \<and> length secs \<le> length sims \<and>
          rs = sorted_reverse relevance_score (?scored sims) \<and>
          map relevance_score (?scored sims) = take (length secs) sims \<and>
          map sect.truncate (?scored sims) = secs \<and>
          (\<forall>k. filter (\<lambda>x. relevance_score x = k) rs =
               filter (\<lambda>x. relevance_score x = k) (?scored sims))"
        using m len rs map2_with_score_scores [OF len] map2_with_score_sections [OF len]
          sorted_reverse_stable [of relevance_score _ "?scored sims"]
        by blast
      have "sorted_wrt (\<lambda>a b. relevance_score b \<le> relevance_score a) rs"
        unfolding rs by (rule sorted_reverse_desc)
      moreover have "sorted_reverse relevance_score rs = rs"
        unfolding rs by (rule sorted_reverse_idem)
      ultimately show ?thesis using False ex perm by blast
    qed
  qed
  from p1 p2 p3 show ?thesis by (intro conjI)
qed

theorem rank_sections_descending_stable_witness:
  "rank_sections (\<lambda>ss. ss) sample_similarity (ustr ''Travel Planner'') (ustr ''Plan a trip'')
     [] = Inr [] \<and>
   rank_sections (\<lambda>ss. ss) sample_similarity (ustr ''Travel Planner'') (ustr ''Plan a trip'')
     sample_sections = Inr sample_ranking \<and>
   rank_sections (\<lambda>ss. ss) sample_similarity (ustr ''Travel Planner'') (ustr ''Plan a trip'')
     sample_sections =
     Inr (sorted_reverse relevance_score (map2 with_score sample_sections [1/2, 9/10, 1/2])) \<and>
   sample_sections \<noteq> [] \<and>
   (\<exists>sims rest.
      sample_similarity [query_string (ustr ''Travel Planner'') (ustr ''Plan a trip'')]
        (map content sample_sections) = sims # rest \<and>
      length sample_sections \<le> length sims \<and>
      sample_ranking = sorted_reverse relevance_score (map2 with_score sample_sections sims) \<and>
      map relevance_score (map2 with_score sample_sections sims) =
        take (length sample_sections) sims \<and>
      map sect.truncate (map2 with_score sample_sections sims) = sample_sections \<and>
      (\<forall>k. filter (\<lambda>x. relevance_score x = k) sample_ranking =
           filter (\<lambda>x. relevance_score x = k) (map2 with_score sample_sections sims))) \<and>
   sorted_wrt (\<lambda>a b. relevance_score b \<le> relevance_score a) sample_ranking \<and>
   mset (map sect.truncate sample_ranking) = mset sample_sections \<and>
   sorted_reverse relevance_score sample_ranking = sample_ranking \<and>
   map relevance_score sample_ranking = [9/10, 1/2, 1/2] \<and>
   map section_title sample_ranking = [ustr ''Hiking'', ustr ''Tax law'', ustr ''Visas'']"
proof -
  have h: "rank_sections (\<lambda>ss. ss) sample_similarity (ustr ''Travel Planner'')
     (ustr ''Plan a trip'') sample_sections = Inr sample_ranking"
    by (simp add: rank_sections_def sample_sections_def sample_similarity_def sorted_reverse_def
        sample_ranking_def)
  have n: "sample_sections \<noteq> []" by (simp add: sample_sections_def)
  have v: "map relevance_score sample_ranking = [9/10, 1/2, 1/2]"
    "map section_title sample_ranking = [ustr ''Hiking'', ustr ''Tax law'', ustr ''Visas'']"
    by (simp_all add: sample_ranking_def sample_sections_def with_score_def sect.extend_def)
  have c: "sample_similarity [query_string (ustr ''Travel Planner'') (ustr ''Plan a trip'')]
        (map content sample_sections) = [1/2, 9/10, 1/2] # []"
    "length sample_sections \<le> length [1/2, 9/10, 1/2 :: real]"
    by (simp_all add: sample_similarity_def sample_sections_def)
  note t = rank_sections_descending_stable [of sample_sections "\<lambda>ss. ss" sample_similarity
      "ustr ''Travel Planner''" "ustr ''Plan a trip''" "[1/2, 9/10, 1/2]" "[]" sample_ranking]
  note e = rank_sections_descending_stable [of "[]" "\<lambda>ss. ss" sample_similarity
      "ustr ''Travel Planner''" "ustr ''Plan a trip''" "[1/2, 9/10, 1/2]" "[]" "[]"]
  from e have e': "rank_sections (\<lambda>ss. ss) sample_similarity (ustr ''Travel Planner'')
     (ustr ''Plan a trip'') [] = Inr []" by blast
  from t n c have "rank_sections (\<lambda>ss. ss) sample_similarity (ustr ''Travel Planner'')
     (ustr ''Plan a trip'') sample_sections =
     Inr (sorted_reverse relevance_score (map2 with_score sample_sections [1/2, 9/10, 1/2]))"
    by blast
  with t h n v e' show ?thesis by blast
qed

end
